theory Spec2Isabelle
  imports Main "HOL-Library.Sublist"
begin

section \<open>Comment quality analyzer: the data\<close>

text \<open>
  The program is one Python class, \<open>CommentQualityAnalyzer\<close> (src/main.py), with a
  constructor and three detectors. Each detector returns a list of triples
  (line number, category, message). Exceptions are values of \<open>error\<close>; a function that
  may raise returns \<open>error + 'a\<close>, with \<open>Inl\<close> the exception.

  Text is modelled as \<open>string\<close>, a \<open>char\<close> standing for the code point of the same
  number, from 0 to 255. The character classes below are Python's on these code points:
  the white space that \<open>str.strip\<close> removes and the regular expression class \<open>\w\<close>
  of a \<open>str\<close> pattern. Text with code points from 256 on is outside the model.
\<close>

datatype error = FileNotFoundError | ReadError | ParseError | IndexError | TypeError

type_synonym issue = "int \<times> string \<times> string"

text \<open>
  The values a style guide loaded from JSON can hold, as far as the two checks tell them
  apart: an integer, a string, or anything else (null, a list, an object), on which both
  \<open>len(..) < v\<close> and \<open>str.startswith(v)\<close> raise TypeError. Floating-point and
  Boolean values are not modelled. A dictionary is the list of its items.
\<close>

datatype pyval = VInt int | VStr string | VOther

type_synonym style_guide = "(string \<times> pyval) list"

text \<open>
  The syntax tree, as \<open>ast.walk\<close> and the detector see it. The node kinds the detector
  tells apart are constructors of their own; every other kind is \<open>Other\<close>, with its class
  name and its child nodes in field order. A definition carries the child nodes that come
  before its body in field order (the arguments; the bases and keywords of a class) and
  those that come after (the decorators, the return annotation, the type parameters).
  The conditional, \<open>ast.If\<close>, is \<open>If_stmt\<close> here.
\<close>

datatype const = CStr string | CNonStr

datatype node =
    FunctionDef string int "node list" "node list" "node list"
  | AsyncFunctionDef string int "node list" "node list" "node list"
  | ClassDef string int "node list" "node list" "node list"
  | If_stmt int node "node list" "node list"
  | Expr node
  | Constant const
  | Other string "node list"

record analyzer =
  filename :: string
  style_guide :: style_guide
  source_code :: string
  tree :: node

text \<open>
  What a path holds when it is opened and read as UTF-8 text: nothing, something that
  cannot be read or decoded, or a text (after newline translation).
\<close>

datatype file_state = Missing | Unreadable | Readable string

type_synonym filesystem = "string \<Rightarrow> file_state"

definition open_read :: "filesystem \<Rightarrow> string \<Rightarrow> error + string" where
  "open_read fs path =
     (case fs path of
        Missing \<Rightarrow> Inl FileNotFoundError
      | Unreadable \<Rightarrow> Inl ReadError
      | Readable s \<Rightarrow> Inr s)"

section \<open>Python's text operations\<close>

text \<open>
  \<open>str.isspace\<close>: the ASCII white space, the four separators from 0x1C to 0x1F, the
  next-line control 0x85 and the no-break space 0xA0.
\<close>

definition is_space :: "char \<Rightarrow> bool" where
  "is_space c \<longleftrightarrow>
     c \<in> set [CHR 0x09, CHR 0x0A, CHR 0x0B, CHR 0x0C, CHR 0x0D,
               CHR 0x1C, CHR 0x1D, CHR 0x1E, CHR 0x1F, CHR '' '',
               CHR 0x85, CHR 0xA0]"

text \<open>
  \<open>\w\<close>: the underscore and the code points that \<open>str.isalnum\<close> accepts; from 128 on
  these are the letters, the superscript digits and the fractions of Latin-1.
\<close>

definition is_word_char :: "char \<Rightarrow> bool" where
  "is_word_char c \<longleftrightarrow>
     c \<in> set ''abcdefghijklmnopqrstuvwxyzABCDEFGHIJKLMNOPQRSTUVWXYZ0123456789_''
     \<or> c \<in> set [CHR 0xAA, CHR 0xB2, CHR 0xB3, CHR 0xB5, CHR 0xB9, CHR 0xBA, CHR 0xBC, CHR 0xBD,
               CHR 0xBE, CHR 0xC0, CHR 0xC1, CHR 0xC2, CHR 0xC3, CHR 0xC4, CHR 0xC5, CHR 0xC6,
               CHR 0xC7, CHR 0xC8, CHR 0xC9, CHR 0xCA, CHR 0xCB, CHR 0xCC, CHR 0xCD, CHR 0xCE,
               CHR 0xCF, CHR 0xD0, CHR 0xD1, CHR 0xD2, CHR 0xD3, CHR 0xD4, CHR 0xD5, CHR 0xD6,
               CHR 0xD8, CHR 0xD9, CHR 0xDA, CHR 0xDB, CHR 0xDC, CHR 0xDD, CHR 0xDE, CHR 0xDF,
               CHR 0xE0, CHR 0xE1, CHR 0xE2, CHR 0xE3, CHR 0xE4, CHR 0xE5, CHR 0xE6, CHR 0xE7,
               CHR 0xE8, CHR 0xE9, CHR 0xEA, CHR 0xEB, CHR 0xEC, CHR 0xED, CHR 0xEE, CHR 0xEF,
               CHR 0xF0, CHR 0xF1, CHR 0xF2, CHR 0xF3, CHR 0xF4, CHR 0xF5, CHR 0xF6, CHR 0xF8,
               CHR 0xF9, CHR 0xFA, CHR 0xFB, CHR 0xFC, CHR 0xFD, CHR 0xFE, CHR 0xFF]"

definition lstrip :: "string \<Rightarrow> string" where
  "lstrip s = dropWhile is_space s"

definition rstrip :: "string \<Rightarrow> string" where
  "rstrip s = rev (dropWhile is_space (rev s))"

definition strip :: "string \<Rightarrow> string" where
  "strip s = rstrip (lstrip s)"

definition startswith :: "string \<Rightarrow> string \<Rightarrow> bool" where
  "startswith s p = prefix p s"

text \<open>\<open>f.readlines()\<close>: the lines of a text, each with its terminating newline.\<close>

fun readlines :: "string \<Rightarrow> string list" where
  "readlines [] = []"
| "readlines (c # cs) =
     (if c = CHR 0x0A then [c] # readlines cs
      else (case readlines cs of [] \<Rightarrow> [[c]] | l # ls \<Rightarrow> (c # l) # ls))"

text \<open>
  Indexing a list, \<open>xs[i]\<close>: an index from 0 up to the length reads from the front,
  one from \<open>- len(xs)\<close> up to \<open>-1\<close> reads from the back, any other raises IndexError.
\<close>

definition py_index :: "'a list \<Rightarrow> int \<Rightarrow> error + 'a" where
  "py_index xs i =
     (if 0 \<le> i \<and> i < int (length xs) then Inr (xs ! nat i)
      else if i < 0 \<and> - int (length xs) \<le> i then Inr (xs ! nat (int (length xs) + i))
      else Inl IndexError)"

text \<open>\<open>s.split("#", 1)\<close>: one piece when there is no marker, two otherwise.\<close>

definition split_hash_1 :: "string \<Rightarrow> string list" where
  "split_hash_1 s =
     (case dropWhile (\<lambda>c. c \<noteq> CHR ''#'') s of
        [] \<Rightarrow> [s]
      | _ # rest \<Rightarrow> [takeWhile (\<lambda>c. c \<noteq> CHR ''#'') s, rest])"

text \<open>
  \<open>re.findall(r'\b\w+\b', s)\<close>: the maximal runs of word characters, left to right.
\<close>

function findall_words :: "string \<Rightarrow> string list" where
  "findall_words [] = []"
| "findall_words (c # cs) =
     (if is_word_char c
      then (c # takeWhile is_word_char cs) # findall_words (dropWhile is_word_char cs)
      else findall_words cs)"
  by pat_completeness auto
termination
  by (relation "measure length") (auto simp: length_dropWhile_le less_Suc_eq_le)

text \<open>\<open>re.search(r"result = val \+ 5", s)\<close>: the literal text occurs in \<open>s\<close>.\<close>

definition changed_line :: "string \<Rightarrow> bool" where
  "changed_line s = sublist ''result = val + 5'' s"

text \<open>\<open>str(n)\<close> for an integer, as an f-string renders it.\<close>

fun show_nat :: "nat \<Rightarrow> string" where
  "show_nat n =
     (if n < 10 then [''0123456789'' ! n]
      else show_nat (n div 10) @ [''0123456789'' ! (n mod 10)])"

declare show_nat.simps [simp del]

definition show_int :: "int \<Rightarrow> string" where
  "show_int i = (if i < 0 then CHR ''-'' # show_nat (nat (- i)) else show_nat (nat i))"

section \<open>The constructor\<close>

text \<open>
  \<open>__init__\<close> reads the file and parses it; either step may raise, and the exception is
  raised again after logging. \<open>ast.parse\<close> is the parser of the Python library: it is a
  parameter here, \<open>None\<close> when the text does not parse. A style guide of \<open>None\<close> or an
  empty one becomes the empty dictionary.
\<close>

definition init ::
  "(string \<Rightarrow> node option) \<Rightarrow> filesystem \<Rightarrow> string \<Rightarrow> style_guide option \<Rightarrow> error + analyzer"
where
  "init parse fs fname sg =
     (case open_read fs fname of
        Inl e \<Rightarrow> Inl e
      | Inr src \<Rightarrow>
          (case parse src of
             None \<Rightarrow> Inl ParseError
           | Some t \<Rightarrow>
               Inr \<lparr>filename = fname,
                    style_guide = (case sg of None \<Rightarrow> [] | Some g \<Rightarrow> g),
                    source_code = src,
                    tree = t\<rparr>))"

section \<open>The missing-documentation detector\<close>

text \<open>
  \<open>ast.iter_child_nodes\<close>: the child nodes in field order. \<open>ast.walk\<close> keeps a queue,
  takes a node from its front, puts the node's children at its back and yields the node.
\<close>

fun iter_child_nodes :: "node \<Rightarrow> node list" where
  "iter_child_nodes (FunctionDef name lineno pre body post) = pre @ body @ post"
| "iter_child_nodes (AsyncFunctionDef name lineno pre body post) = pre @ body @ post"
| "iter_child_nodes (ClassDef name lineno pre body post) = pre @ body @ post"
| "iter_child_nodes (If_stmt lineno test body orelse) = test # body @ orelse"
| "iter_child_nodes (Expr v) = [v]"
| "iter_child_nodes (Constant c) = []"
| "iter_child_nodes (Other k cs) = cs"

fun node_count :: "node \<Rightarrow> nat" where
  "node_count (FunctionDef name lineno pre body post) =
     Suc (sum_list (map node_count pre) + sum_list (map node_count body)
          + sum_list (map node_count post))"
| "node_count (AsyncFunctionDef name lineno pre body post) =
     Suc (sum_list (map node_count pre) + sum_list (map node_count body)
          + sum_list (map node_count post))"
| "node_count (ClassDef name lineno pre body post) =
     Suc (sum_list (map node_count pre) + sum_list (map node_count body)
          + sum_list (map node_count post))"
| "node_count (If_stmt lineno test body orelse) =
     Suc (node_count test + sum_list (map node_count body)
          + sum_list (map node_count orelse))"
| "node_count (Expr v) = Suc (node_count v)"
| "node_count (Constant c) = Suc 0"
| "node_count (Other k cs) = Suc (sum_list (map node_count cs))"

lemma node_count_children:
  "node_count n = Suc (sum_list (map node_count (iter_child_nodes n)))"
  by (cases n) simp_all

function walk_loop :: "node list \<Rightarrow> node list" where
  "walk_loop [] = []"
| "walk_loop (n # todo) = n # walk_loop (todo @ iter_child_nodes n)"
  by pat_completeness auto
termination
  by (relation "measure (\<lambda>todo. sum_list (map node_count todo))")
     (auto simp: node_count_children)

definition walk :: "node \<Rightarrow> node list" where
  "walk t = walk_loop [t]"

fun is_If :: "node \<Rightarrow> bool" where
  "is_If (If_stmt lineno test body orelse) = True"
| "is_If _ = False"

text \<open>
  \<open>_extract_docstring\<close>: the string of the first body statement when that statement is
  an expression statement holding a string constant, the empty string otherwise. The
  detector calls it on function and class definitions only; an \<open>Other\<close> node keeps its
  children without a \<open>body\<close> attribute of its own.
\<close>

fun node_body :: "node \<Rightarrow> node list option" where
  "node_body (FunctionDef name lineno pre body post) = Some body"
| "node_body (AsyncFunctionDef name lineno pre body post) = Some body"
| "node_body (ClassDef name lineno pre body post) = Some body"
| "node_body (If_stmt lineno test body orelse) = Some body"
| "node_body _ = None"

definition extract_docstring :: "node \<Rightarrow> string" where
  "extract_docstring n =
     (case node_body n of
        Some (Expr (Constant (CStr s)) # rest) \<Rightarrow> s
      | _ \<Rightarrow> [])"

text \<open>
  The body of the loop of \<open>check_missing_comments\<close>: what one node appends to the list,
  or the exception it raises. \<open>ast.dump\<close> is the library's; it is a parameter. The file is
  opened again for every complex conditional that is not on line 1.
\<close>

definition complex_issue :: "int \<Rightarrow> issue" where
  "complex_issue lineno = (lineno, ''complex logic'', ''Missing comment for complex if statement'')"

fun check_node :: "(node \<Rightarrow> string) \<Rightarrow> filesystem \<Rightarrow> analyzer \<Rightarrow> node \<Rightarrow> error + issue list" where
  "check_node dump fs a (FunctionDef name lineno pre body post) =
     (if extract_docstring (FunctionDef name lineno pre body post) = []
      then Inr [(lineno, ''function'', ''Missing docstring for function: '' @ name)]
      else Inr [])"
| "check_node dump fs a (AsyncFunctionDef name lineno pre body post) =
     (if extract_docstring (AsyncFunctionDef name lineno pre body post) = []
      then Inr [(lineno, ''function'', ''Missing docstring for function: '' @ name)]
      else Inr [])"
| "check_node dump fs a (ClassDef name lineno pre body post) =
     (if extract_docstring (ClassDef name lineno pre body post) = []
      then Inr [(lineno, ''class'', ''Missing docstring for class: '' @ name)]
      else Inr [])"
| "check_node dump fs a (If_stmt lineno test body orelse) =
     (if length body > 3 \<or> list_ex is_If body \<or> length (dump test) > 100 then
        (if lineno > 1 then
           (case open_read fs (filename a) of
              Inl e \<Rightarrow> Inl e
            | Inr content \<Rightarrow>
                (let lines = readlines content in
                 if lineno - 2 \<ge> 0 then
                   (case py_index lines (lineno - 2) of
                      Inl e \<Rightarrow> Inl e
                    | Inr l \<Rightarrow>
                        (let prev_line = strip l in
                         if \<not> startswith prev_line ''#''
                         then Inr [complex_issue lineno]
                         else Inr []))
                 else Inr []))
         else Inr [complex_issue lineno])
      else Inr [])"
| "check_node dump fs a (Expr v) = Inr []"
| "check_node dump fs a (Constant c) = Inr []"
| "check_node dump fs a (Other k cs) = Inr []"

fun check_nodes ::
  "(node \<Rightarrow> string) \<Rightarrow> filesystem \<Rightarrow> analyzer \<Rightarrow> node list \<Rightarrow> issue list \<Rightarrow> error + issue list"
where
  "check_nodes dump fs a [] missing_comments = Inr missing_comments"
| "check_nodes dump fs a (n # ns) missing_comments =
     (case check_node dump fs a n of
        Inl e \<Rightarrow> Inl e
      | Inr new \<Rightarrow> check_nodes dump fs a ns (missing_comments @ new))"

definition check_missing_comments ::
  "(node \<Rightarrow> string) \<Rightarrow> filesystem \<Rightarrow> analyzer \<Rightarrow> error + issue list"
where
  "check_missing_comments dump fs a = check_nodes dump fs a (walk (tree a)) []"

section \<open>The style consistency checker\<close>

text \<open>
  The two checks on one comment body. A value of the wrong type makes the comparison
  (or \<open>startswith\<close>) raise TypeError.
\<close>

definition length_check :: "style_guide \<Rightarrow> int \<Rightarrow> string \<Rightarrow> error + issue list" where
  "length_check sg i comment_text =
     (case map_of sg ''min_length'' of
        None \<Rightarrow> Inr []
      | Some (VInt m) \<Rightarrow>
          (if int (length comment_text) < m
           then Inr [(i, ''length'', ''Comment is too short (min length: '' @ show_int m @ '')'')]
           else Inr [])
      | Some _ \<Rightarrow> Inl TypeError)"

definition prefix_check :: "style_guide \<Rightarrow> int \<Rightarrow> string \<Rightarrow> error + issue list" where
  "prefix_check sg i comment_text =
     (case map_of sg ''required_prefix'' of
        None \<Rightarrow> Inr []
      | Some (VStr p) \<Rightarrow>
          (if \<not> startswith comment_text p
           then Inr [(i, ''prefix'', ''Comment does not start with required prefix: '' @ p)]
           else Inr [])
      | Some _ \<Rightarrow> Inl TypeError)"

text \<open>The body of the loop over the numbered lines.\<close>

definition style_line :: "style_guide \<Rightarrow> int \<Rightarrow> string \<Rightarrow> error + issue list" where
  "style_line sg i raw =
     (let line = rstrip raw in
      if startswith (strip line) ''#'' then
        (case py_index (split_hash_1 line) 1 of
           Inl e \<Rightarrow> Inl e
         | Inr piece \<Rightarrow>
             (let comment_text = strip piece in
              case length_check sg i comment_text of
                Inl e \<Rightarrow> Inl e
              | Inr v1 \<Rightarrow>
                  (case prefix_check sg i comment_text of
                     Inl e \<Rightarrow> Inl e
                   | Inr v2 \<Rightarrow> Inr (v1 @ v2))))
      else Inr [])"

fun style_loop :: "style_guide \<Rightarrow> int \<Rightarrow> string list \<Rightarrow> issue list \<Rightarrow> error + issue list" where
  "style_loop sg i [] style_violations = Inr style_violations"
| "style_loop sg i (line # rest) style_violations =
     (case style_line sg i line of
        Inl e \<Rightarrow> Inl e
      | Inr new \<Rightarrow> style_loop sg (i + 1) rest (style_violations @ new))"

definition enforce_comment_style_consistency :: "filesystem \<Rightarrow> analyzer \<Rightarrow> error + issue list" where
  "enforce_comment_style_consistency fs a =
     (if style_guide a = [] then Inr []
      else (case open_read fs (filename a) of
              Inl e \<Rightarrow> Inl e
            | Inr content \<Rightarrow> style_loop (style_guide a) 1 (readlines content) []))"

section \<open>The staleness heuristic\<close>

definition outdated_issue :: "int \<Rightarrow> string \<Rightarrow> issue" where
  "outdated_issue n var =
     (n, ''outdated'',
      ''Possible outdated comment near changed line. Comment might be related to variable: '' @ var)"

text \<open>The loop over the words of the changed line, left at the first word that fits.\<close>

fun scan_vars :: "int \<Rightarrow> string \<Rightarrow> string list \<Rightarrow> issue list" where
  "scan_vars check_line_num check_line [] = []"
| "scan_vars check_line_num check_line (var # vars) =
     (if sublist var check_line \<and> length var > 2
      then [outdated_issue (check_line_num + 1) var]
      else scan_vars check_line_num check_line vars)"

text \<open>The loop over the offsets, for the changed line \<open>line\<close> at index \<open>i\<close>.\<close>

fun scan_window :: "string list \<Rightarrow> int \<Rightarrow> string \<Rightarrow> int list \<Rightarrow> issue list \<Rightarrow> issue list" where
  "scan_window lines i line [] outdated_comments = outdated_comments"
| "scan_window lines i line (offset # offsets) outdated_comments =
     (let check_line_num = i + offset in
      if 0 \<le> check_line_num \<and> check_line_num < int (length lines) then
        (let check_line = strip (lines ! nat check_line_num) in
         if startswith check_line ''#''
         then scan_window lines i line offsets
                (outdated_comments @ scan_vars check_line_num check_line (findall_words line))
         else scan_window lines i line offsets outdated_comments)
      else scan_window lines i line offsets outdated_comments)"

text \<open>The loop over the numbered lines; \<open>rest\<close> is what is left of \<open>lines\<close> from index \<open>i\<close>.\<close>

fun scan_lines :: "string list \<Rightarrow> int \<Rightarrow> string list \<Rightarrow> issue list \<Rightarrow> issue list" where
  "scan_lines lines i [] outdated_comments = outdated_comments"
| "scan_lines lines i (line # rest) outdated_comments =
     (if changed_line line
      then scan_lines lines (i + 1) rest (scan_window lines i line [-3..3] outdated_comments)
      else scan_lines lines (i + 1) rest outdated_comments)"

definition identify_outdated_comments :: "filesystem \<Rightarrow> analyzer \<Rightarrow> error + issue list" where
  "identify_outdated_comments fs a =
     (case open_read fs (filename a) of
        Inl e \<Rightarrow> Inl e
      | Inr content \<Rightarrow> (let lines = readlines content in Inr (scan_lines lines 0 lines [])))"

section \<open>The run of the three passes\<close>

text \<open>
  The analysis part of \<open>main\<close>: the analyzer is constructed, then the three detectors run
  in turn; the first exception ends the run and nothing is reported. \<open>fs0\<close> is what the
  paths hold when the analyzer is constructed, \<open>fs\<close> what they hold when the detectors run.
\<close>

definition run_analysis ::
  "(string \<Rightarrow> node option) \<Rightarrow> (node \<Rightarrow> string) \<Rightarrow> filesystem \<Rightarrow> filesystem \<Rightarrow> string
     \<Rightarrow> style_guide option \<Rightarrow> error + (issue list \<times> issue list \<times> issue list)"
where
  "run_analysis parse dump fs0 fs fname sg =
     (case init parse fs0 fname sg of
        Inl e \<Rightarrow> Inl e
      | Inr a \<Rightarrow>
          (case check_missing_comments dump fs a of
             Inl e \<Rightarrow> Inl e
           | Inr missing_comments \<Rightarrow>
               (case enforce_comment_style_consistency fs a of
                  Inl e \<Rightarrow> Inl e
                | Inr style_violations \<Rightarrow>
                    (case identify_outdated_comments fs a of
                       Inl e \<Rightarrow> Inl e
                     | Inr outdated_comments \<Rightarrow>
                         Inr (missing_comments, style_violations, outdated_comments)))))"

section \<open>Notions used in the statements\<close>

text \<open>
  What the pass over the tree appends for one node: the result of the loop body when it
  returns, nothing when it raises.
\<close>

definition node_issues :: "(node \<Rightarrow> string) \<Rightarrow> filesystem \<Rightarrow> analyzer \<Rightarrow> node \<Rightarrow> issue list" where
  "node_issues dump fs a n = (case check_node dump fs a n of Inl e \<Rightarrow> [] | Inr new \<Rightarrow> new)"

text \<open>
  The nodes at a given depth below the nodes of a list, left to right: depth 0 is the
  list itself, depth \<open>d + 1\<close> the nodes at depth \<open>d\<close> below the children.
\<close>

fun nodes_at_depth :: "nat \<Rightarrow> node list \<Rightarrow> node list" where
  "nodes_at_depth 0 q = q"
| "nodes_at_depth (Suc d) q = nodes_at_depth d (concat (map iter_child_nodes q))"

text \<open>
  The comment body in the words of the specification: the text after the first "#" of the
  line, trimmed of surrounding white space.
\<close>

definition comment_body :: "string \<Rightarrow> string" where
  "comment_body raw = strip (tl (dropWhile (\<lambda>c. c \<noteq> CHR ''#'') raw))"

text \<open>
  The issues of one physical line in the words of the specification: none when the
  trimmed line does not start with "#"; otherwise a "length" issue when \<open>min_length\<close> is
  configured and the body is shorter, then a "prefix" issue when \<open>required_prefix\<close> is
  configured and the body does not start with it.
\<close>

definition spec_line_issues :: "style_guide \<Rightarrow> int \<Rightarrow> string \<Rightarrow> issue list" where
  "spec_line_issues sg i raw =
     (if startswith (strip raw) ''#'' then
        (case map_of sg ''min_length'' of
           Some (VInt m) \<Rightarrow>
             (if int (length (comment_body raw)) < m
              then [(i, ''length'', ''Comment is too short (min length: '' @ show_int m @ '')'')]
              else [])
         | _ \<Rightarrow> [])
        @ (case map_of sg ''required_prefix'' of
             Some (VStr p) \<Rightarrow>
               (if startswith (comment_body raw) p then []
                else [(i, ''prefix'', ''Comment does not start with required prefix: '' @ p)])
           | _ \<Rightarrow> [])
      else [])"

text \<open>
  A style guide as the specification types it: \<open>min_length\<close>, when present, is an integer
  and \<open>required_prefix\<close>, when present, is a string.
\<close>

definition well_typed :: "style_guide \<Rightarrow> bool" where
  "well_typed sg \<longleftrightarrow>
     (case map_of sg ''min_length'' of None \<Rightarrow> True | Some (VInt m) \<Rightarrow> True | Some _ \<Rightarrow> False)
     \<and> (case map_of sg ''required_prefix'' of None \<Rightarrow> True | Some (VStr p) \<Rightarrow> True | Some _ \<Rightarrow> False)"

text \<open>
  The staleness heuristic in the words of the specification. The token cited for a
  changed line and a comment: the first word of the changed line that is longer than 2
  characters and occurs in the comment's text.
\<close>

definition first_token :: "string \<Rightarrow> string \<Rightarrow> string option" where
  "first_token line comment =
     find (\<lambda>w. 2 < length w \<and> sublist w comment) (findall_words line)"

text \<open>
  The window of a changed line at index \<open>i\<close> in a file of \<open>n\<close> lines: the indices from
  \<open>i - 3\<close> to \<open>i + 3\<close>, clamped to the file.
\<close>

definition window :: "nat \<Rightarrow> int \<Rightarrow> int list" where
  "window n i = [max 0 (i - 3) .. min (int n - 1) (i + 3)]"

text \<open>
  The issues of the pair of the changed line at index \<open>i\<close> and the line at index \<open>j\<close>: one
  issue on line \<open>j + 1\<close> when that line is a comment and a token is found, none otherwise.
\<close>

definition pair_issues :: "string list \<Rightarrow> nat \<Rightarrow> int \<Rightarrow> issue list" where
  "pair_issues lines i j =
     (if startswith (strip (lines ! nat j)) ''#'' then
        (case first_token (lines ! i) (strip (lines ! nat j)) of
           None \<Rightarrow> []
         | Some w \<Rightarrow>
             [(j + 1, ''outdated'',
               ''Possible outdated comment near changed line. Comment might be related to variable: ''
               @ w)])
      else [])"

definition spec_outdated :: "string list \<Rightarrow> issue list" where
  "spec_outdated lines =
     concat (map (\<lambda>i. if changed_line (lines ! i)
                        then concat (map (pair_issues lines i) (window (length lines) (int i)))
                        else [])
                 [0..<length lines])"

section \<open>The missing-documentation detector: the loop\<close>

lemma check_nodes_Inr:
  "check_nodes dump fs a ns acc = Inr r \<Longrightarrow>
     r = acc @ concat (map (node_issues dump fs a) ns)
     \<and> (\<forall>n\<in>set ns. check_node dump fs a n = Inr (node_issues dump fs a n))"
proof (induction ns arbitrary: acc)
  case Nil
  then show ?case by simp
next
  case (Cons n ns)
  from Cons.prems obtain new where new: "check_node dump fs a n = Inr new"
    and rest: "check_nodes dump fs a ns (acc @ new) = Inr r"
    by (cases "check_node dump fs a n") simp_all
  from new have eq: "node_issues dump fs a n = new"
    by (simp add: node_issues_def)
  from Cons.IH [OF rest] new eq show ?case
    by simp
qed


lemma check_missing_comments_Inr:
  "check_missing_comments dump fs a = Inr issues \<Longrightarrow>
     issues = concat (map (node_issues dump fs a) (walk (tree a)))"
  unfolding check_missing_comments_def by (drule check_nodes_Inr) simp

section \<open>The constructor raises exactly on a missing, unreadable or unparsable file\<close>

text \<open>
  Claim C6. Constructing the analyzer raises if and only if the file is missing or
  unreadable, or its text does not parse: FileNotFoundError for a missing file, a read
  error for an unreadable one, the parser's error otherwise. When the constructor raises,
  the run produces no issue lists; when it returns, the object holds the text that was
  read and the tree parsed from it.
\<close>

theorem init_raises_iff:
  "((\<exists>e. init parse fs fname sg = Inl e) \<longleftrightarrow>
       fs fname = Missing \<or> fs fname = Unreadable
       \<or> (\<exists>src. fs fname = Readable src \<and> parse src = None))
   \<and> (fs fname = Missing \<longrightarrow> init parse fs fname sg = Inl FileNotFoundError)
   \<and> (fs fname = Unreadable \<longrightarrow> init parse fs fname sg = Inl ReadError)
   \<and> (\<forall>src. fs fname = Readable src \<and> parse src = None \<longrightarrow>
          init parse fs fname sg = Inl ParseError)
   \<and> (\<forall>e. init parse fs fname sg = Inl e \<longrightarrow>
          run_analysis parse dump fs fs' fname sg = Inl e)
   \<and> (\<forall>a. init parse fs fname sg = Inr a \<longrightarrow>
          fs fname = Readable (source_code a) \<and> parse (source_code a) = Some (tree a)
          \<and> filename a = fname)"
proof (cases "fs fname")
  case Missing
  then show ?thesis by (simp add: init_def open_read_def run_analysis_def)
next
  case Unreadable
  then show ?thesis by (simp add: init_def open_read_def run_analysis_def)
next
  case (Readable src)
  then show ?thesis
    by (cases "parse src") (auto simp: init_def open_read_def run_analysis_def)
qed

theorem init_raises_iff_witness:
  "init (\<lambda>s. if s = ''x = 1'' then Some (Other ''Module'' []) else None)
        (\<lambda>p. if p = ''a.py'' then Readable ''x = 1''
              else if p = ''b.py'' then Readable ''x = ''
              else Missing) ''c.py'' None = Inl FileNotFoundError
   \<and> run_analysis (\<lambda>s. if s = ''x = 1'' then Some (Other ''Module'' []) else None) (\<lambda>n. [])
        (\<lambda>p. if p = ''a.py'' then Readable ''x = 1''
              else if p = ''b.py'' then Readable ''x = ''
              else Missing) (\<lambda>p. Readable ''x = 1'') ''c.py'' None = Inl FileNotFoundError
   \<and> init (\<lambda>s. if s = ''x = 1'' then Some (Other ''Module'' []) else None)
        (\<lambda>p. if p = ''a.py'' then Readable ''x = 1''
              else if p = ''b.py'' then Readable ''x = ''
              else Missing) ''b.py'' None = Inl ParseError
   \<and> (\<exists>a. init (\<lambda>s. if s = ''x = 1'' then Some (Other ''Module'' []) else None)
        (\<lambda>p. if p = ''a.py'' then Readable ''x = 1''
              else if p = ''b.py'' then Readable ''x = ''
              else Missing) ''a.py'' None = Inr a
        \<and> source_code a = ''x = 1'' \<and> tree a = Other ''Module'' [] \<and> filename a = ''a.py'')"
proof -
  let ?parse = "\<lambda>s. if s = ''x = 1'' then Some (Other ''Module'' []) else None"
  let ?fs = "\<lambda>p. if p = ''a.py'' then Readable ''x = 1''
              else if p = ''b.py'' then Readable ''x = ''
              else Missing"
  note c = init_raises_iff [of ?parse ?fs "''c.py''" None "\<lambda>n. []" "\<lambda>p. Readable ''x = 1''"]
  note b = init_raises_iff [of ?parse ?fs "''b.py''" None "\<lambda>n. []" "\<lambda>p. Readable ''x = 1''"]
  note a = init_raises_iff [of ?parse ?fs "''a.py''" None "\<lambda>n. []" "\<lambda>p. Readable ''x = 1''"]
  have c1: "init ?parse ?fs ''c.py'' None = Inl FileNotFoundError"
    using c by simp
  have c2: "run_analysis ?parse (\<lambda>n. []) ?fs (\<lambda>p. Readable ''x = 1'') ''c.py'' None
              = Inl FileNotFoundError"
    using c c1 by simp
  have b1: "init ?parse ?fs ''b.py'' None = Inl ParseError"
    using b by simp
  have a1: "\<forall>a. init ?parse ?fs ''a.py'' None = Inr a
              \<longrightarrow> source_code a = ''x = 1'' \<and> tree a = Other ''Module'' []
                  \<and> filename a = ''a.py''"
    using a by auto
  have a2: "\<exists>a. init ?parse ?fs ''a.py'' None = Inr a"
    by (simp add: init_def open_read_def)
  from a1 a2 have a3: "\<exists>a. init ?parse ?fs ''a.py'' None = Inr a
      \<and> source_code a = ''x = 1'' \<and> tree a = Other ''Module'' [] \<and> filename a = ''a.py''"
    by blast
  from c1 c2 b1 a3 show ?thesis by simp
qed

section \<open>Missing docstrings\<close>

text \<open>
  Claim C1, as stated, fails: a function whose first body statement is the string
  literal \<open>""\<close> is reported, because \<open>_extract_docstring\<close> returns the empty
  string both for an empty docstring and for none.
\<close>

theorem empty_docstring_counterexample:
  "check_missing_comments (\<lambda>n. []) (\<lambda>p. Missing)
     \<lparr>filename = ''f.py'', style_guide = [], source_code = [],
      tree = Other ''Module''
               [FunctionDef ''f'' 1 [Other ''arguments'' []] [Expr (Constant (CStr []))] []]\<rparr>
   = Inr [(1, ''function'', ''Missing docstring for function: f'')]"
  by (simp add: check_missing_comments_def walk_def extract_docstring_def)

text \<open>
  Claim C1, amended. The issues returned are those of the visited nodes, in the order of
  the visit. A function, async function or class definition whose first body statement
  is a string literal with a non-empty value yields none; one for which
  \<open>_extract_docstring\<close> is the empty string yields exactly one, at its declaration
  line, of category "function" (or "class"), naming the definition.
\<close>

theorem missing_docstring_issue:
  assumes "check_missing_comments dump fs a = Inr issues"
  shows "issues = concat (map (node_issues dump fs a) (walk (tree a)))
    \<and> (\<forall>n\<in>set (walk (tree a)). \<forall>name lineno pre body post.
          (n = FunctionDef name lineno pre body post
             \<or> n = AsyncFunctionDef name lineno pre body post \<longrightarrow>
           (\<forall>s rest. body = Expr (Constant (CStr s)) # rest \<and> s \<noteq> [] \<longrightarrow>
              node_issues dump fs a n = [])
           \<and> (extract_docstring n = [] \<longrightarrow>
                node_issues dump fs a n =
                  [(lineno, ''function'', ''Missing docstring for function: '' @ name)]))
        \<and> (n = ClassDef name lineno pre body post \<longrightarrow>
           (\<forall>s rest. body = Expr (Constant (CStr s)) # rest \<and> s \<noteq> [] \<longrightarrow>
              node_issues dump fs a n = [])
           \<and> (extract_docstring n = [] \<longrightarrow>
                node_issues dump fs a n =
                  [(lineno, ''class'', ''Missing docstring for class: '' @ name)])))"
proof -
  have A: "issues = concat (map (node_issues dump fs a) (walk (tree a)))"
    using assms by (rule check_missing_comments_Inr)
  have B: "\<forall>n\<in>set (walk (tree a)). \<forall>name lineno pre body post.
          (n = FunctionDef name lineno pre body post
             \<or> n = AsyncFunctionDef name lineno pre body post \<longrightarrow>
           (\<forall>s rest. body = Expr (Constant (CStr s)) # rest \<and> s \<noteq> [] \<longrightarrow>
              node_issues dump fs a n = [])
           \<and> (extract_docstring n = [] \<longrightarrow>
                node_issues dump fs a n =
                  [(lineno, ''function'', ''Missing docstring for function: '' @ name)]))
        \<and> (n = ClassDef name lineno pre body post \<longrightarrow>
           (\<forall>s rest. body = Expr (Constant (CStr s)) # rest \<and> s \<noteq> [] \<longrightarrow>
              node_issues dump fs a n = [])
           \<and> (extract_docstring n = [] \<longrightarrow>
                node_issues dump fs a n =
                  [(lineno, ''class'', ''Missing docstring for class: '' @ name)]))"
    by (intro ballI allI) (auto simp: node_issues_def extract_docstring_def)
  show ?thesis by (rule conjI [OF A B])
qed


theorem missing_docstring_issue_witness:
  "check_missing_comments (\<lambda>n. []) (\<lambda>p. Missing)
     \<lparr>filename = ''f.py'', style_guide = [], source_code = [],
      tree = Other ''Module''
        [FunctionDef ''f'' 1 [Other ''arguments'' []] [Expr (Constant (CStr ''doc''))] [],
         ClassDef ''C'' 3 [] [Other ''Pass'' []] []]\<rparr>
     = Inr [(3, ''class'', ''Missing docstring for class: C'')]
   \<and> node_issues (\<lambda>n. []) (\<lambda>p. Missing)
     \<lparr>filename = ''f.py'', style_guide = [], source_code = [],
      tree = Other ''Module''
        [FunctionDef ''f'' 1 [Other ''arguments'' []] [Expr (Constant (CStr ''doc''))] [],
         ClassDef ''C'' 3 [] [Other ''Pass'' []] []]\<rparr>
     (FunctionDef ''f'' 1 [Other ''arguments'' []] [Expr (Constant (CStr ''doc''))] []) = []
   \<and> node_issues (\<lambda>n. []) (\<lambda>p. Missing)
     \<lparr>filename = ''f.py'', style_guide = [], source_code = [],
      tree = Other ''Module''
        [FunctionDef ''f'' 1 [Other ''arguments'' []] [Expr (Constant (CStr ''doc''))] [],
         ClassDef ''C'' 3 [] [Other ''Pass'' []] []]\<rparr>
     (ClassDef ''C'' 3 [] [Other ''Pass'' []] [])
     = [(3, ''class'', ''Missing docstring for class: C'')]"
proof -
  let ?F = "FunctionDef ''f'' 1 [Other ''arguments'' []] [Expr (Constant (CStr ''doc''))] []"
  let ?C = "ClassDef ''C'' 3 [] [Other ''Pass'' []] []"
  let ?A = "\<lparr>filename = ''f.py'', style_guide = [], source_code = [],
             tree = Other ''Module'' [?F, ?C]\<rparr>"
  have run: "check_missing_comments (\<lambda>n. []) (\<lambda>p. Missing) ?A
               = Inr [(3, ''class'', ''Missing docstring for class: C'')]"
    by (simp add: check_missing_comments_def walk_def extract_docstring_def)
  have inF: "?F \<in> set (walk (tree ?A))" and inC: "?C \<in> set (walk (tree ?A))"
    by (simp_all add: walk_def)
  have noC: "extract_docstring ?C = []"
    by (simp add: extract_docstring_def)
  note t = missing_docstring_issue [OF run, THEN conjunct2, rule_format]
  have f: "node_issues (\<lambda>n. []) (\<lambda>p. Missing) ?A ?F = []"
    using t [OF inF, of "''f''" 1 "[Other ''arguments'' []]" "[Expr (Constant (CStr ''doc''))]" "[]",
             THEN conjunct1, rule_format, THEN conjunct1, rule_format, of "''doc''" "[]"]
    by simp
  have c: "node_issues (\<lambda>n. []) (\<lambda>p. Missing) ?A ?C
             = [(3, ''class'', ''Missing docstring for class: C'')]"
    using t [OF inC, of "''C''" 3 "[]" "[Other ''Pass'' []]" "[]",
             THEN conjunct2, rule_format, THEN conjunct2, rule_format] noC
    by simp
  from run f c show ?thesis by simp
qed


section \<open>The order of the visit\<close>

lemma walk_loop_append:
  "walk_loop (xs @ ys) = xs @ walk_loop (ys @ concat (map iter_child_nodes xs))"
proof (induction xs arbitrary: ys)
  case Nil
  show ?case by simp
next
  case (Cons x xs)
  have "walk_loop ((x # xs) @ ys) = x # walk_loop (xs @ (ys @ iter_child_nodes x))"
    by simp
  also have "\<dots> = x # xs @ walk_loop ((ys @ iter_child_nodes x) @ concat (map iter_child_nodes xs))"
    by (simp only: Cons.IH)
  finally show ?case by simp
qed

lemma walk_loop_level:
  "walk_loop q = q @ walk_loop (concat (map iter_child_nodes q))"
  using walk_loop_append [of q "[]"] by simp

lemma nodes_at_depth_children:
  "nodes_at_depth d (concat (map iter_child_nodes q))
     = concat (map iter_child_nodes (nodes_at_depth d q))"
  by (induction d arbitrary: q) simp_all

lemma walk_loop_levels:
  "walk_loop q = concat (map (\<lambda>d. nodes_at_depth d q) [0..<k]) @ walk_loop (nodes_at_depth k q)"
proof (induction k)
  case 0
  show ?case by simp
next
  case (Suc k)
  have "walk_loop (nodes_at_depth k q)
          = nodes_at_depth k q @ walk_loop (nodes_at_depth (Suc k) q)"
    using walk_loop_level [of "nodes_at_depth k q"]
    by (simp add: nodes_at_depth_children)
  with Suc.IH show ?case by simp
qed

lemma node_count_pos: "0 < node_count n"
  by (simp add: node_count_children)

lemma length_le_count: "length q \<le> sum_list (map node_count q)"
proof (induction q)
  case Nil
  show ?case by simp
next
  case (Cons n q)
  with node_count_pos [of n] show ?case by simp
qed

lemma count_children:
  "sum_list (map node_count (concat (map iter_child_nodes q))) + length q
     = sum_list (map node_count q)"
proof (induction q)
  case Nil
  show ?case by simp
next
  case (Cons n q)
  have "node_count n = Suc (sum_list (map node_count (iter_child_nodes n)))"
    by (rule node_count_children)
  with Cons.IH show ?case by simp
qed

lemma nodes_at_depth_Nil: "nodes_at_depth d [] = []"
  by (induction d) simp_all

lemma depth_less_count:
  "nodes_at_depth d q \<noteq> [] \<Longrightarrow> d < sum_list (map node_count q)"
proof (induction d arbitrary: q)
  case 0
  then have "0 < length q" by simp
  with length_le_count [of q] show ?case by linarith
next
  case (Suc d)
  from Suc.prems have ne: "q \<noteq> []"
    by (auto simp: nodes_at_depth_Nil)
  from Suc.prems have "nodes_at_depth d (concat (map iter_child_nodes q)) \<noteq> []"
    by simp
  from Suc.IH [OF this] have "d < sum_list (map node_count (concat (map iter_child_nodes q)))" .
  moreover from ne have "0 < length q" by simp
  ultimately show ?case using count_children [of q] by linarith
qed

lemma walk_level_order:
  "walk t = concat (map (\<lambda>d. nodes_at_depth d [t]) [0..<node_count t])"
proof -
  have "nodes_at_depth (node_count t) [t] = []"
    using depth_less_count [of "node_count t" "[t]"] by auto
  with walk_loop_levels [of "[t]" "node_count t"] show ?thesis
    by (simp add: walk_def)
qed

lemma no_deeper_nodes: "node_count t \<le> d \<Longrightarrow> nodes_at_depth d [t] = []"
  using depth_less_count [of d "[t]"] by auto


lemma nested_definition_run:
  "check_missing_comments (\<lambda>n. []) (\<lambda>p. Missing)
     \<lparr>filename = ''f.py'', style_guide = [], source_code = [],
      tree = Other ''Module''
        [FunctionDef ''f'' 1 [Other ''arguments'' []]
           [FunctionDef ''g'' 2 [Other ''arguments'' []] [Other ''Pass'' []] []] [],
         FunctionDef ''h'' 4 [Other ''arguments'' []] [Other ''Pass'' []] []]\<rparr>
   = Inr [(1, ''function'', ''Missing docstring for function: f''),
          (4, ''function'', ''Missing docstring for function: h''),
          (2, ''function'', ''Missing docstring for function: g'')]"
  by (simp add: check_missing_comments_def walk_def extract_docstring_def)

text \<open>
  Claim C10. The visit is breadth first: the nodes visited are those at depth 0, then
  those at depth 1, and so on, each level left to right, and no node lies deeper than the
  levels listed. The issues returned are those of the nodes in that order. For a
  definition without docstring nested in an earlier one and followed by a later top-level
  definition without docstring, the result is not sorted by line number.
\<close>

theorem issues_in_breadth_first_order:
  "walk t = concat (map (\<lambda>d. nodes_at_depth d [t]) [0..<node_count t])
   \<and> (\<forall>d. node_count t \<le> d \<longrightarrow> nodes_at_depth d [t] = [])
   \<and> (\<forall>issues. check_missing_comments dump fs a = Inr issues \<longrightarrow>
         issues = concat (map (node_issues dump fs a)
                    (concat (map (\<lambda>d. nodes_at_depth d [tree a]) [0..<node_count (tree a)]))))
   \<and> (\<exists>dump fs a issues. check_missing_comments dump fs a = Inr issues
         \<and> \<not> sorted (map fst issues))"
proof -
  have A: "walk t = concat (map (\<lambda>d. nodes_at_depth d [t]) [0..<node_count t])"
    by (rule walk_level_order)
  have B: "\<forall>d. node_count t \<le> d \<longrightarrow> nodes_at_depth d [t] = []"
    by (simp add: no_deeper_nodes)
  have C: "\<forall>issues. check_missing_comments dump fs a = Inr issues \<longrightarrow>
         issues = concat (map (node_issues dump fs a)
                    (concat (map (\<lambda>d. nodes_at_depth d [tree a]) [0..<node_count (tree a)])))"
  proof (intro allI impI)
    fix issues
    assume "check_missing_comments dump fs a = Inr issues"
    from check_missing_comments_Inr [OF this]
    show "issues = concat (map (node_issues dump fs a)
                    (concat (map (\<lambda>d. nodes_at_depth d [tree a]) [0..<node_count (tree a)])))"
      by (simp only: walk_level_order)
  qed
  have "\<not> sorted (map fst [(1::int, ''function'', ''Missing docstring for function: f''),
          (4, ''function'', ''Missing docstring for function: h''),
          (2, ''function'', ''Missing docstring for function: g'')])"
    by simp
  with nested_definition_run
  have D: "\<exists>dump fs a issues. check_missing_comments dump fs a = Inr issues
         \<and> \<not> sorted (map fst issues)"
    by blast
  from A B C D show ?thesis by (intro conjI)
qed

theorem issues_in_breadth_first_order_witness:
  "check_missing_comments (\<lambda>n. []) (\<lambda>p. Missing)
     \<lparr>filename = ''f.py'', style_guide = [], source_code = [],
      tree = Other ''Module''
        [FunctionDef ''f'' 1 [Other ''arguments'' []]
           [FunctionDef ''g'' 2 [Other ''arguments'' []] [Other ''Pass'' []] []] [],
         FunctionDef ''h'' 4 [Other ''arguments'' []] [Other ''Pass'' []] []]\<rparr>
   = Inr [(1, ''function'', ''Missing docstring for function: f''),
          (4, ''function'', ''Missing docstring for function: h''),
          (2, ''function'', ''Missing docstring for function: g'')]
   \<and> [(1, ''function'', ''Missing docstring for function: f''),
          (4, ''function'', ''Missing docstring for function: h''),
          (2, ''function'', ''Missing docstring for function: g'')]
     = concat (map (node_issues (\<lambda>n. []) (\<lambda>p. Missing)
          \<lparr>filename = ''f.py'', style_guide = [], source_code = [],
           tree = Other ''Module''
             [FunctionDef ''f'' 1 [Other ''arguments'' []]
                [FunctionDef ''g'' 2 [Other ''arguments'' []] [Other ''Pass'' []] []] [],
              FunctionDef ''h'' 4 [Other ''arguments'' []] [Other ''Pass'' []] []]\<rparr>)
        (concat (map (\<lambda>d. nodes_at_depth d
           [Other ''Module''
             [FunctionDef ''f'' 1 [Other ''arguments'' []]
                [FunctionDef ''g'' 2 [Other ''arguments'' []] [Other ''Pass'' []] []] [],
              FunctionDef ''h'' 4 [Other ''arguments'' []] [Other ''Pass'' []] []]])
           [0..<node_count (Other ''Module''
             [FunctionDef ''f'' 1 [Other ''arguments'' []]
                [FunctionDef ''g'' 2 [Other ''arguments'' []] [Other ''Pass'' []] []] [],
              FunctionDef ''h'' 4 [Other ''arguments'' []] [Other ''Pass'' []] []])])))
   \<and> nodes_at_depth 1 [Other ''Module''
             [FunctionDef ''f'' 1 [Other ''arguments'' []]
                [FunctionDef ''g'' 2 [Other ''arguments'' []] [Other ''Pass'' []] []] [],
              FunctionDef ''h'' 4 [Other ''arguments'' []] [Other ''Pass'' []] []]]
      = [FunctionDef ''f'' 1 [Other ''arguments'' []]
                [FunctionDef ''g'' 2 [Other ''arguments'' []] [Other ''Pass'' []] []] [],
         FunctionDef ''h'' 4 [Other ''arguments'' []] [Other ''Pass'' []] []]"
proof -
  let ?T = "Other ''Module''
        [FunctionDef ''f'' 1 [Other ''arguments'' []]
           [FunctionDef ''g'' 2 [Other ''arguments'' []] [Other ''Pass'' []] []] [],
         FunctionDef ''h'' 4 [Other ''arguments'' []] [Other ''Pass'' []] []]"
  let ?A = "\<lparr>filename = ''f.py'', style_guide = [], source_code = [], tree = ?T\<rparr>"
  note run = nested_definition_run
  have "tree ?A = ?T" by simp
  with issues_in_breadth_first_order [of ?T "\<lambda>n. []" "\<lambda>p. Missing" ?A,
         THEN conjunct2, THEN conjunct2, THEN conjunct1, rule_format, OF run]
  have lv: "[(1, ''function'', ''Missing docstring for function: f''),
          (4, ''function'', ''Missing docstring for function: h''),
          (2, ''function'', ''Missing docstring for function: g'')]
     = concat (map (node_issues (\<lambda>n. []) (\<lambda>p. Missing) ?A)
        (concat (map (\<lambda>d. nodes_at_depth d [?T]) [0..<node_count ?T])))"
    by (simp only:)
  have d1: "nodes_at_depth 1 [?T]
      = [FunctionDef ''f'' 1 [Other ''arguments'' []]
                [FunctionDef ''g'' 2 [Other ''arguments'' []] [Other ''Pass'' []] []] [],
         FunctionDef ''h'' 4 [Other ''arguments'' []] [Other ''Pass'' []] []]"
    by (simp add: numeral_eq_Suc)
  from run lv d1 show ?thesis by (intro conjI)
qed

section \<open>Evaluation of the text operations\<close>

lemmas text_eval = strip_def lstrip_def rstrip_def startswith_def is_space_def

section \<open>What the detectors read\<close>

lemma show_int_10: "show_int 10 = ''10''"
  by (simp add: show_int_def show_nat.simps)

lemma window_offsets: "[-3..3::int] = [-3, -2, -1, 0, 1, 2, 3]"
  by code_simp

lemmas style_eval = enforce_comment_style_consistency_def open_read_def style_line_def
  length_check_def prefix_check_def split_hash_1_def py_index_def

lemma scan_lines_step:
  "scan_lines lines i (line # rest) acc =
     (if changed_line line
      then scan_lines lines (i + 1) rest (scan_window lines i line [-3, -2, -1, 0, 1, 2, 3] acc)
      else scan_lines lines (i + 1) rest acc)"
  by (simp only: scan_lines.simps window_offsets)

lemmas outdated_eval = identify_outdated_comments_def open_read_def changed_line_def
  sublist_code outdated_issue_def is_word_char_def scan_lines_step

lemma check_node_reread:
  "open_read fs1 (filename a1) = open_read fs2 (filename a2)
   \<Longrightarrow> check_node dump fs1 a1 n = check_node dump fs2 a2 n"
  by (cases n) simp_all

lemma check_nodes_reread:
  "open_read fs1 (filename a1) = open_read fs2 (filename a2)
   \<Longrightarrow> check_nodes dump fs1 a1 ns acc = check_nodes dump fs2 a2 ns acc"
proof (induction ns arbitrary: acc)
  case Nil
  show ?case by simp
next
  case (Cons n ns)
  have "check_node dump fs1 a1 n = check_node dump fs2 a2 n"
    by (rule check_node_reread [OF Cons.prems])
  with Cons.IH [OF Cons.prems] show ?case by (simp split: sum.splits)
qed

text \<open>
  Claim C8. The claim is that the detectors' output depends only on the text read at
  construction and on the style guide, even if the file is different when a detector runs.
  Each detector opens the file again. Here one analyzer, constructed from the text
  \<open>x = 1\<close> with a minimum comment length of 10, gives different results of the style checker
  and of the staleness heuristic for two contents of the file at the time of the call.
\<close>

theorem reread_counterexample:
  "enforce_comment_style_consistency (\<lambda>p. Readable ''x = 1\<newline>'')
     \<lparr>filename = ''f.py'', style_guide = [(''min_length'', VInt 10)],
      source_code = ''x = 1\<newline>'', tree = Other ''Module'' [Other ''Assign'' []]\<rparr>
     = Inr []
   \<and> enforce_comment_style_consistency (\<lambda>p. Readable ''# a\<newline>'')
     \<lparr>filename = ''f.py'', style_guide = [(''min_length'', VInt 10)],
      source_code = ''x = 1\<newline>'', tree = Other ''Module'' [Other ''Assign'' []]\<rparr>
     = Inr [(1, ''length'', ''Comment is too short (min length: 10)'')]
   \<and> identify_outdated_comments (\<lambda>p. Readable ''x = 1\<newline>'')
     \<lparr>filename = ''f.py'', style_guide = [(''min_length'', VInt 10)],
      source_code = ''x = 1\<newline>'', tree = Other ''Module'' [Other ''Assign'' []]\<rparr>
     = Inr []
   \<and> identify_outdated_comments (\<lambda>p. Readable ''# val\<newline>result = val + 5\<newline>'')
     \<lparr>filename = ''f.py'', style_guide = [(''min_length'', VInt 10)],
      source_code = ''x = 1\<newline>'', tree = Other ''Module'' [Other ''Assign'' []]\<rparr>
     = Inr [(1, ''outdated'',
        ''Possible outdated comment near changed line. Comment might be related to variable: val'')]"
proof -
  let ?A = "\<lparr>filename = ''f.py'', style_guide = [(''min_length'', VInt 10)],
      source_code = ''x = 1\<newline>'', tree = Other ''Module'' [Other ''Assign'' []]\<rparr>"
  have a: "enforce_comment_style_consistency (\<lambda>p. Readable ''x = 1\<newline>'') ?A = Inr []"
    by (simp add: style_eval text_eval)
  have b: "enforce_comment_style_consistency (\<lambda>p. Readable ''# a\<newline>'') ?A
     = Inr [(1, ''length'', ''Comment is too short (min length: 10)'')]"
    by (simp add: style_eval text_eval show_int_10)
  have c: "identify_outdated_comments (\<lambda>p. Readable ''x = 1\<newline>'') ?A = Inr []"
    by (simp add: outdated_eval del: scan_lines.simps(2))
  have d: "identify_outdated_comments
             (\<lambda>p. Readable ''# val\<newline>result = val + 5\<newline>'') ?A
     = Inr [(1, ''outdated'',
        ''Possible outdated comment near changed line. Comment might be related to variable: val'')]"
    by (simp add: outdated_eval text_eval Let_def del: scan_lines.simps(2))
  from a b c d show ?thesis by (intro conjI)
qed

text \<open>
  Claim C8, amended. The output of each detector is determined by the tree built at
  construction, the style guide, and what the file's path holds when the detector runs. The
  text kept in \<open>source_code\<close> is read by no detector.
\<close>

theorem detectors_read_file_again:
  assumes "fs1 (filename a1) = fs2 (filename a2)"
    and "tree a1 = tree a2"
    and "style_guide a1 = style_guide a2"
  shows "check_missing_comments dump fs1 a1 = check_missing_comments dump fs2 a2
       \<and> enforce_comment_style_consistency fs1 a1 = enforce_comment_style_consistency fs2 a2
       \<and> identify_outdated_comments fs1 a1 = identify_outdated_comments fs2 a2"
proof -
  from assms(1) have o: "open_read fs1 (filename a1) = open_read fs2 (filename a2)"
    by (simp add: open_read_def)
  have A: "check_missing_comments dump fs1 a1 = check_missing_comments dump fs2 a2"
    unfolding check_missing_comments_def assms(2) by (rule check_nodes_reread [OF o])
  have B: "enforce_comment_style_consistency fs1 a1 = enforce_comment_style_consistency fs2 a2"
    unfolding enforce_comment_style_consistency_def o assms(3) by (rule refl)
  have C: "identify_outdated_comments fs1 a1 = identify_outdated_comments fs2 a2"
    unfolding identify_outdated_comments_def o by (rule refl)
  from A B C show ?thesis by (intro conjI)
qed

theorem detectors_read_file_again_witness:
  "check_missing_comments (\<lambda>n. ''Name'') (\<lambda>p. Readable ''# a\<newline>if x:\<newline>'')
     \<lparr>filename = ''f.py'', style_guide = [(''min_length'', VInt 10)],
      source_code = ''x = 1\<newline>'', tree = Other ''Module'' [Other ''Assign'' []]\<rparr>
   = check_missing_comments (\<lambda>n. ''Name'')
     (\<lambda>p. if p = ''g.py'' then Readable ''# a\<newline>if x:\<newline>'' else Missing)
     \<lparr>filename = ''g.py'', style_guide = [(''min_length'', VInt 10)],
      source_code = ''# a\<newline>if x:\<newline>'', tree = Other ''Module'' [Other ''Assign'' []]\<rparr>
   \<and> enforce_comment_style_consistency (\<lambda>p. Readable ''# a\<newline>if x:\<newline>'')
     \<lparr>filename = ''f.py'', style_guide = [(''min_length'', VInt 10)],
      source_code = ''x = 1\<newline>'', tree = Other ''Module'' [Other ''Assign'' []]\<rparr>
   = enforce_comment_style_consistency
     (\<lambda>p. if p = ''g.py'' then Readable ''# a\<newline>if x:\<newline>'' else Missing)
     \<lparr>filename = ''g.py'', style_guide = [(''min_length'', VInt 10)],
      source_code = ''# a\<newline>if x:\<newline>'', tree = Other ''Module'' [Other ''Assign'' []]\<rparr>
   \<and> identify_outdated_comments (\<lambda>p. Readable ''# a\<newline>if x:\<newline>'')
     \<lparr>filename = ''f.py'', style_guide = [(''min_length'', VInt 10)],
      source_code = ''x = 1\<newline>'', tree = Other ''Module'' [Other ''Assign'' []]\<rparr>
   = identify_outdated_comments
     (\<lambda>p. if p = ''g.py'' then Readable ''# a\<newline>if x:\<newline>'' else Missing)
     \<lparr>filename = ''g.py'', style_guide = [(''min_length'', VInt 10)],
      source_code = ''# a\<newline>if x:\<newline>'', tree = Other ''Module'' [Other ''Assign'' []]\<rparr>"
  using detectors_read_file_again
    [where ?fs1.0 = "\<lambda>p. Readable ''# a\<newline>if x:\<newline>''"
       and ?fs2.0 = "\<lambda>p. if p = ''g.py'' then Readable ''# a\<newline>if x:\<newline>'' else Missing"
       and ?a1.0 = "\<lparr>filename = ''f.py'', style_guide = [(''min_length'', VInt 10)],
      source_code = ''x = 1\<newline>'', tree = Other ''Module'' [Other ''Assign'' []]\<rparr>"
       and ?a2.0 = "\<lparr>filename = ''g.py'', style_guide = [(''min_length'', VInt 10)],
      source_code = ''# a\<newline>if x:\<newline>'', tree = Other ''Module'' [Other ''Assign'' []]\<rparr>"
       and dump = "\<lambda>n. ''Name''"]
  by simp

section \<open>Complex conditionals\<close>

lemma in_walk_iff: "n \<in> set (walk t) \<longleftrightarrow> (\<exists>d. n \<in> set (nodes_at_depth d [t]))"
proof
  assume "n \<in> set (walk t)"
  then show "\<exists>d. n \<in> set (nodes_at_depth d [t])"
    unfolding walk_level_order by auto
next
  assume "\<exists>d. n \<in> set (nodes_at_depth d [t])"
  then obtain d where d: "n \<in> set (nodes_at_depth d [t])" ..
  have "d < node_count t"
  proof (rule ccontr)
    assume "\<not> d < node_count t"
    then have "nodes_at_depth d [t] = []" by (simp add: no_deeper_nodes)
    with d show False by simp
  qed
  with d show "n \<in> set (walk t)"
    unfolding walk_level_order by auto
qed

lemma is_If_iff: "is_If n \<longleftrightarrow> (\<exists>l t b e. n = If_stmt l t b e)"
  by (cases n) simp_all

lemma nested_If_iff: "list_ex is_If body \<longleftrightarrow> (\<exists>l t b e. If_stmt l t b e \<in> set body)"
  unfolding list_ex_iff is_If_iff by blast

lemma node_issues_in_result:
  assumes "check_missing_comments dump fs a = Inr issues" and "n \<in> set (nodes_at_depth d [tree a])"
  shows "set (node_issues dump fs a n) \<subseteq> set issues"
    and "check_node dump fs a n = Inr (node_issues dump fs a n)"
proof -
  from assms(2) have n: "n \<in> set (walk (tree a))" by (auto simp: in_walk_iff)
  from check_missing_comments_Inr [OF assms(1)] n
  show "set (node_issues dump fs a n) \<subseteq> set issues" by auto
  from assms(1) have "check_nodes dump fs a (walk (tree a)) [] = Inr issues"
    by (simp add: check_missing_comments_def)
  from check_nodes_Inr [OF this] n
  show "check_node dump fs a n = Inr (node_issues dump fs a n)" by blast
qed

lemma issue_has_node:
  assumes "check_missing_comments dump fs a = Inr issues" and "x \<in> set issues"
  shows "\<exists>d. \<exists>n\<in>set (nodes_at_depth d [tree a]). x \<in> set (node_issues dump fs a n)"
proof -
  from check_missing_comments_Inr [OF assms(1)] assms(2)
  obtain n where "n \<in> set (walk (tree a))" and "x \<in> set (node_issues dump fs a n)" by auto
  then show ?thesis by (auto simp: in_walk_iff)
qed

lemma complex_logic_node:
  assumes "(ln, ''complex logic'', msg) \<in> set (node_issues dump fs a n)"
  shows "\<exists>test body orelse. n = If_stmt ln test body orelse
           \<and> msg = ''Missing comment for complex if statement''
           \<and> (3 < length body \<or> (\<exists>l t b e. If_stmt l t b e \<in> set body) \<or> 100 < length (dump test))
           \<and> (1 < ln \<longrightarrow> (\<exists>content. fs (filename a) = Readable content
                 \<and> ln - 2 < int (length (readlines content))
                 \<and> \<not> startswith (strip (readlines content ! nat (ln - 2))) ''#''))"
proof (cases n)
  case (If_stmt lineno test body orelse)
  with assms show ?thesis
    by (auto simp: node_issues_def complex_issue_def Let_def nested_If_iff open_read_def
                   py_index_def
             split: if_splits sum.splits file_state.splits)
qed (use assms in \<open>auto simp: node_issues_def split: if_splits\<close>)

lemma complex_node_issues:
  assumes "3 < length body \<or> (\<exists>l t b e. If_stmt l t b e \<in> set body) \<or> 100 < length (dump test)"
    and "check_node dump fs a (If_stmt lineno test body orelse) = Inr new"
  shows "lineno \<le> 1 \<Longrightarrow> new = [complex_issue lineno]"
    and "1 < lineno \<Longrightarrow> \<exists>content. fs (filename a) = Readable content
           \<and> lineno - 2 < int (length (readlines content))
           \<and> new = (if startswith (strip (readlines content ! nat (lineno - 2))) ''#'' then []
                     else [complex_issue lineno])"
proof -
  from assms(1) have c: "3 < length body \<or> list_ex is_If body \<or> 100 < length (dump test)"
    by (simp add: nested_If_iff)
  show "lineno \<le> 1 \<Longrightarrow> new = [complex_issue lineno]"
    using c assms(2) by simp
  show "1 < lineno \<Longrightarrow> \<exists>content. fs (filename a) = Readable content
           \<and> lineno - 2 < int (length (readlines content))
           \<and> new = (if startswith (strip (readlines content ! nat (lineno - 2))) ''#'' then []
                     else [complex_issue lineno])"
    using c assms(2)
    by (auto simp: open_read_def py_index_def Let_def split: file_state.splits if_splits)
qed


text \<open>
  Claim C4. In a run of the detector that returns: a conditional of the tree with at most
  3 statements in its body, no conditional directly in its body and a test whose dump has
  at most 100 characters appends nothing, and a line whose conditionals are all of this
  kind has no "complex logic" issue; every "complex logic" issue returned comes from a
  conditional of the tree, at its line, for which one of the three conditions holds; and
  each of the three conditions is enough: a conditional of the tree, at whatever line, for
  which one holds is reported when no comment stands on the line above it (or when it is
  on line 1).
\<close>

theorem simple_if_never_complex:
  assumes "check_missing_comments dump fs a = Inr issues"
  shows "(\<forall>d lineno test body orelse.
            If_stmt lineno test body orelse \<in> set (nodes_at_depth d [tree a])
            \<and> length body \<le> 3 \<and> (\<forall>l t b e. If_stmt l t b e \<notin> set body)
            \<and> length (dump test) \<le> 100
            \<longrightarrow> check_node dump fs a (If_stmt lineno test body orelse) = Inr [])
       \<and> (\<forall>ln. (\<forall>d test body orelse.
                   If_stmt ln test body orelse \<in> set (nodes_at_depth d [tree a])
                   \<longrightarrow> length body \<le> 3 \<and> (\<forall>l t b e. If_stmt l t b e \<notin> set body)
                        \<and> length (dump test) \<le> 100)
            \<longrightarrow> (\<forall>msg. (ln, ''complex logic'', msg) \<notin> set issues))
       \<and> (\<forall>ln msg. (ln, ''complex logic'', msg) \<in> set issues \<longrightarrow>
            (\<exists>d test body orelse.
               If_stmt ln test body orelse \<in> set (nodes_at_depth d [tree a])
               \<and> (3 < length body \<or> (\<exists>l t b e. If_stmt l t b e \<in> set body)
                    \<or> 100 < length (dump test))))
       \<and> (\<forall>d lineno test body orelse.
            If_stmt lineno test body orelse \<in> set (nodes_at_depth d [tree a])
            \<and> (3 < length body \<or> (\<exists>l t b e. If_stmt l t b e \<in> set body)
                 \<or> 100 < length (dump test))
            \<and> (lineno \<le> 1
                 \<or> (\<exists>content. fs (filename a) = Readable content
                      \<and> \<not> startswith (strip (readlines content ! nat (lineno - 2))) ''#''))
            \<longrightarrow> (lineno, ''complex logic'', ''Missing comment for complex if statement'')
                  \<in> set issues)"
proof -
  have A: "\<forall>d lineno test body orelse.
            If_stmt lineno test body orelse \<in> set (nodes_at_depth d [tree a])
            \<and> length body \<le> 3 \<and> (\<forall>l t b e. If_stmt l t b e \<notin> set body)
            \<and> length (dump test) \<le> 100
            \<longrightarrow> check_node dump fs a (If_stmt lineno test body orelse) = Inr []"
    by (simp add: nested_If_iff)
  have B: "\<forall>ln msg. (ln, ''complex logic'', msg) \<in> set issues \<longrightarrow>
            (\<exists>d test body orelse.
               If_stmt ln test body orelse \<in> set (nodes_at_depth d [tree a])
               \<and> (3 < length body \<or> (\<exists>l t b e. If_stmt l t b e \<in> set body)
                    \<or> 100 < length (dump test)))"
  proof (intro allI impI)
    fix ln msg
    assume "(ln, ''complex logic'', msg) \<in> set issues"
    from issue_has_node [OF assms this] obtain d n
      where n: "n \<in> set (nodes_at_depth d [tree a])"
        and x: "(ln, ''complex logic'', msg) \<in> set (node_issues dump fs a n)" by blast
    from complex_logic_node [OF x] obtain test body orelse
      where "n = If_stmt ln test body orelse"
        and "3 < length body \<or> (\<exists>l t b e. If_stmt l t b e \<in> set body)
               \<or> 100 < length (dump test)"
      by blast
    with n show "\<exists>d test body orelse.
               If_stmt ln test body orelse \<in> set (nodes_at_depth d [tree a])
               \<and> (3 < length body \<or> (\<exists>l t b e. If_stmt l t b e \<in> set body)
                    \<or> 100 < length (dump test))"
      by blast
  qed
  have A': "\<forall>ln. (\<forall>d test body orelse.
                   If_stmt ln test body orelse \<in> set (nodes_at_depth d [tree a])
                   \<longrightarrow> length body \<le> 3 \<and> (\<forall>l t b e. If_stmt l t b e \<notin> set body)
                        \<and> length (dump test) \<le> 100)
            \<longrightarrow> (\<forall>msg. (ln, ''complex logic'', msg) \<notin> set issues)"
  proof (intro allI impI notI)
    fix ln msg
    assume simple: "\<forall>d test body orelse.
                   If_stmt ln test body orelse \<in> set (nodes_at_depth d [tree a])
                   \<longrightarrow> length body \<le> 3 \<and> (\<forall>l t b e. If_stmt l t b e \<notin> set body)
                        \<and> length (dump test) \<le> 100"
      and "(ln, ''complex logic'', msg) \<in> set issues"
    with B obtain d test body orelse
      where m: "If_stmt ln test body orelse \<in> set (nodes_at_depth d [tree a])"
        and c: "3 < length body \<or> (\<exists>l t b e. If_stmt l t b e \<in> set body)
               \<or> 100 < length (dump test)"
      by blast
    from simple m have "length body \<le> 3 \<and> (\<forall>l t b e. If_stmt l t b e \<notin> set body)
                        \<and> length (dump test) \<le> 100" by blast
    with c show False by auto
  qed
  have C: "\<forall>d lineno test body orelse.
            If_stmt lineno test body orelse \<in> set (nodes_at_depth d [tree a])
            \<and> (3 < length body \<or> (\<exists>l t b e. If_stmt l t b e \<in> set body)
                 \<or> 100 < length (dump test))
            \<and> (lineno \<le> 1
                 \<or> (\<exists>content. fs (filename a) = Readable content
                      \<and> \<not> startswith (strip (readlines content ! nat (lineno - 2))) ''#''))
            \<longrightarrow> (lineno, ''complex logic'', ''Missing comment for complex if statement'')
                  \<in> set issues"
  proof (intro allI impI, elim conjE)
    fix d lineno test body orelse
    assume m: "If_stmt lineno test body orelse \<in> set (nodes_at_depth d [tree a])"
      and c: "3 < length body \<or> (\<exists>l t b e. If_stmt l t b e \<in> set body)
                 \<or> 100 < length (dump test)"
      and above: "lineno \<le> 1
                 \<or> (\<exists>content. fs (filename a) = Readable content
                      \<and> \<not> startswith (strip (readlines content ! nat (lineno - 2))) ''#'')"
    let ?n = "If_stmt lineno test body orelse"
    note r = node_issues_in_result [OF assms m]
    have "node_issues dump fs a ?n = [complex_issue lineno]"
    proof (cases "lineno \<le> 1")
      case True
      from complex_node_issues(1) [OF c r(2) True] show ?thesis .
    next
      case False
      then have l: "1 < lineno" by simp
      from complex_node_issues(2) [OF c r(2) l] obtain content
        where f: "fs (filename a) = Readable content"
          and new: "node_issues dump fs a ?n
                 = (if startswith (strip (readlines content ! nat (lineno - 2))) ''#'' then []
                    else [complex_issue lineno])"
        by blast
      from above False f
      have "\<not> startswith (strip (readlines content ! nat (lineno - 2))) ''#''" by auto
      with new show ?thesis by simp
    qed
    with r(1) show "(lineno, ''complex logic'', ''Missing comment for complex if statement'')
                  \<in> set issues"
      by (simp add: complex_issue_def)
  qed
  from A A' B C show ?thesis by (intro conjI)
qed


theorem simple_if_never_complex_witness:
  "check_missing_comments (\<lambda>n. if n = Other ''BoolOp'' [] then replicate 101 CHR ''x'' else ''Name'')
     (\<lambda>p. if p = ''f.py'' then Readable ''x = 1\<newline>if a:\<newline>    p = 1\<newline>    q = 2\<newline>    r = 3\<newline>    s = 4\<newline>y = 2\<newline>if b:\<newline>    if c:\<newline>        pass\<newline>z = 3\<newline>if a and b:\<newline>    pass\<newline>'' else Missing)
     \<lparr>filename = ''f.py'', style_guide = [], source_code = [],
      tree = Other ''Module''
        [Other ''Assign'' [],
         If_stmt 2 (Other ''Name'' [])
            [Other ''Assign'' [], Other ''Assign'' [], Other ''Assign'' [], Other ''Assign'' []] [],
         Other ''Assign'' [],
         If_stmt 8 (Other ''Name'' []) [If_stmt 9 (Other ''Name'' []) [Other ''Pass'' []] []] [],
         Other ''Assign'' [],
         If_stmt 12 (Other ''BoolOp'' []) [Other ''Pass'' []] []]\<rparr>
     = Inr [(2::int, ''complex logic'', ''Missing comment for complex if statement''),
          (8, ''complex logic'', ''Missing comment for complex if statement''),
          (12, ''complex logic'', ''Missing comment for complex if statement'')]
   \<and> check_node (\<lambda>n. if n = Other ''BoolOp'' [] then replicate 101 CHR ''x'' else ''Name'')
     (\<lambda>p. if p = ''f.py'' then Readable ''x = 1\<newline>if a:\<newline>    p = 1\<newline>    q = 2\<newline>    r = 3\<newline>    s = 4\<newline>y = 2\<newline>if b:\<newline>    if c:\<newline>        pass\<newline>z = 3\<newline>if a and b:\<newline>    pass\<newline>'' else Missing)
     \<lparr>filename = ''f.py'', style_guide = [], source_code = [],
      tree = Other ''Module''
        [Other ''Assign'' [],
         If_stmt 2 (Other ''Name'' [])
            [Other ''Assign'' [], Other ''Assign'' [], Other ''Assign'' [], Other ''Assign'' []] [],
         Other ''Assign'' [],
         If_stmt 8 (Other ''Name'' []) [If_stmt 9 (Other ''Name'' []) [Other ''Pass'' []] []] [],
         Other ''Assign'' [],
         If_stmt 12 (Other ''BoolOp'' []) [Other ''Pass'' []] []]\<rparr>
     (If_stmt 9 (Other ''Name'' []) [Other ''Pass'' []] []) = Inr []
   \<and> (\<forall>msg. (9, ''complex logic'', msg) \<notin> set [(2::int, ''complex logic'', ''Missing comment for complex if statement''),
          (8, ''complex logic'', ''Missing comment for complex if statement''),
          (12, ''complex logic'', ''Missing comment for complex if statement'')])
   \<and> (8, ''complex logic'', ''Missing comment for complex if statement'') \<in> set [(2::int, ''complex logic'', ''Missing comment for complex if statement''),
          (8, ''complex logic'', ''Missing comment for complex if statement''),
          (12, ''complex logic'', ''Missing comment for complex if statement'')]
   \<and> (12, ''complex logic'', ''Missing comment for complex if statement'') \<in> set [(2::int, ''complex logic'', ''Missing comment for complex if statement''),
          (8, ''complex logic'', ''Missing comment for complex if statement''),
          (12, ''complex logic'', ''Missing comment for complex if statement'')]
   \<and> (\<exists>d test body orelse.
         If_stmt 2 test body orelse \<in> set (nodes_at_depth d [Other ''Module''
        [Other ''Assign'' [],
         If_stmt 2 (Other ''Name'' [])
            [Other ''Assign'' [], Other ''Assign'' [], Other ''Assign'' [], Other ''Assign'' []] [],
         Other ''Assign'' [],
         If_stmt 8 (Other ''Name'' []) [If_stmt 9 (Other ''Name'' []) [Other ''Pass'' []] []] [],
         Other ''Assign'' [],
         If_stmt 12 (Other ''BoolOp'' []) [Other ''Pass'' []] []]])
         \<and> (3 < length body \<or> (\<exists>l t b e. If_stmt l t b e \<in> set body)
              \<or> 100 < length ((\<lambda>n. if n = Other ''BoolOp'' [] then replicate 101 CHR ''x'' else ''Name'') test)))"
proof -
  let ?dump = "(\<lambda>n. if n = Other ''BoolOp'' [] then replicate 101 CHR ''x'' else ''Name'')"
  let ?content = "''x = 1\<newline>if a:\<newline>    p = 1\<newline>    q = 2\<newline>    r = 3\<newline>    s = 4\<newline>y = 2\<newline>if b:\<newline>    if c:\<newline>        pass\<newline>z = 3\<newline>if a and b:\<newline>    pass\<newline>''"
  let ?fs = "\<lambda>p. if p = ''f.py'' then Readable ?content else Missing"
  let ?T = "Other ''Module''
        [Other ''Assign'' [],
         If_stmt 2 (Other ''Name'' [])
            [Other ''Assign'' [], Other ''Assign'' [], Other ''Assign'' [], Other ''Assign'' []] [],
         Other ''Assign'' [],
         If_stmt 8 (Other ''Name'' []) [If_stmt 9 (Other ''Name'' []) [Other ''Pass'' []] []] [],
         Other ''Assign'' [],
         If_stmt 12 (Other ''BoolOp'' []) [Other ''Pass'' []] []]"
  let ?A = "\<lparr>filename = ''f.py'', style_guide = [], source_code = [], tree = ?T\<rparr>"
  let ?I = "[(2::int, ''complex logic'', ''Missing comment for complex if statement''),
          (8, ''complex logic'', ''Missing comment for complex if statement''),
          (12, ''complex logic'', ''Missing comment for complex if statement'')]"
  have lines: "readlines ?content =
      [''x = 1\<newline>'', ''if a:\<newline>'', ''    p = 1\<newline>'', ''    q = 2\<newline>'',
       ''    r = 3\<newline>'', ''    s = 4\<newline>'', ''y = 2\<newline>'', ''if b:\<newline>'',
       ''    if c:\<newline>'', ''        pass\<newline>'', ''z = 3\<newline>'',
       ''if a and b:\<newline>'', ''    pass\<newline>'']"
    by simp
  have run: "check_missing_comments ?dump ?fs ?A = Inr ?I"
    by (simp add: check_missing_comments_def walk_def complex_issue_def open_read_def
                  py_index_def lines text_eval)
  note t = simple_if_never_complex [OF run]
  have simple: "check_node ?dump ?fs ?A (If_stmt 9 (Other ''Name'' []) [Other ''Pass'' []] [])
                  = Inr []"
    using t [THEN conjunct1, rule_format,
             where d = 2 and lineno = 9 and test = "Other ''Name'' []"
               and body = "[Other ''Pass'' []]" and orelse = "[]"]
    by simp
  have depth: "d = 0 \<or> d = Suc 0 \<or> d = Suc (Suc 0) \<or> d = Suc (Suc (Suc 0))
                \<or> (\<exists>k. d = Suc (Suc (Suc (Suc k))))" for d :: nat
    by presburger
  have at9: "If_stmt 9 test body orelse \<in> set (nodes_at_depth d [?T])
               \<Longrightarrow> test = Other ''Name'' [] \<and> body = [Other ''Pass'' []]" for d test body orelse
    using depth [of d] by (auto simp: nodes_at_depth_Nil)
  have none: "\<forall>msg. (9, ''complex logic'', msg) \<notin> set ?I"
    using t [THEN conjunct2, THEN conjunct1, rule_format, where ln = 9] at9
    by auto
  have nested: "(8, ''complex logic'', ''Missing comment for complex if statement'') \<in> set ?I"
    using t [THEN conjunct2, THEN conjunct2, THEN conjunct2, rule_format,
             where d = 1 and lineno = 8 and test = "Other ''Name'' []"
               and body = "[If_stmt 9 (Other ''Name'' []) [Other ''Pass'' []] []]"
               and orelse = "[]"]
    by (simp add: lines text_eval)
  have long: "(12, ''complex logic'', ''Missing comment for complex if statement'') \<in> set ?I"
    using t [THEN conjunct2, THEN conjunct2, THEN conjunct2, rule_format,
             where d = 1 and lineno = 12 and test = "Other ''BoolOp'' []"
               and body = "[Other ''Pass'' []]" and orelse = "[]"]
    by (simp add: lines text_eval)
  have many: "\<exists>d test body orelse.
         If_stmt 2 test body orelse \<in> set (nodes_at_depth d [?T])
         \<and> (3 < length body \<or> (\<exists>l t b e. If_stmt l t b e \<in> set body)
              \<or> 100 < length (?dump test))"
    using t [THEN conjunct2, THEN conjunct2, THEN conjunct1, rule_format,
             where ln = 2 and msg = "''Missing comment for complex if statement''"]
    by simp
  from run simple none nested long many show ?thesis by (intro conjI)
qed


text \<open>
  Claim C3. In a run of the detector that returns, for a conditional of the tree for which
  one of the three conditions holds: on line 1 (or before) its issue is in the result,
  whatever the file holds; after line 1 the file has been read again and has the line
  above the declaration, and a "complex logic" issue for the declaration line is in the
  result if and only if that line, stripped of white space, does not start with "#". The
  node appends its issue once or not at all.
\<close>

theorem complex_if_comment_above:
  assumes "check_missing_comments dump fs a = Inr issues"
    and "If_stmt lineno test body orelse \<in> set (nodes_at_depth d [tree a])"
    and "3 < length body \<or> (\<exists>l t b e. If_stmt l t b e \<in> set body) \<or> 100 < length (dump test)"
  shows "(lineno \<le> 1 \<longrightarrow>
            (lineno, ''complex logic'', ''Missing comment for complex if statement'') \<in> set issues
            \<and> check_node dump fs a (If_stmt lineno test body orelse)
                = Inr [(lineno, ''complex logic'', ''Missing comment for complex if statement'')])
       \<and> (1 < lineno \<longrightarrow>
            (\<exists>content. fs (filename a) = Readable content
               \<and> lineno - 1 \<le> int (length (readlines content))
               \<and> ((lineno, ''complex logic'', ''Missing comment for complex if statement'')
                     \<in> set issues
                    \<longleftrightarrow> \<not> startswith (strip (readlines content ! nat (lineno - 2))) ''#'')
               \<and> ((\<exists>msg. (lineno, ''complex logic'', msg) \<in> set issues)
                    \<longleftrightarrow> \<not> startswith (strip (readlines content ! nat (lineno - 2))) ''#'')
               \<and> check_node dump fs a (If_stmt lineno test body orelse)
                   = Inr (if startswith (strip (readlines content ! nat (lineno - 2))) ''#''
                          then []
                          else [(lineno, ''complex logic'',
                                 ''Missing comment for complex if statement'')])))"
proof -
  let ?n = "If_stmt lineno test body orelse"
  let ?x = "(lineno, ''complex logic'', ''Missing comment for complex if statement'')"
  note r = node_issues_in_result [OF assms(1) assms(2)]
  have A: "lineno \<le> 1 \<longrightarrow> ?x \<in> set issues \<and> check_node dump fs a ?n = Inr [?x]"
  proof
    assume l: "lineno \<le> 1"
    from complex_node_issues(1) [OF assms(3) r(2) l]
    have "node_issues dump fs a ?n = [?x]" by (simp add: complex_issue_def)
    with r show "?x \<in> set issues \<and> check_node dump fs a ?n = Inr [?x]" by simp
  qed
  have B: "1 < lineno \<longrightarrow>
            (\<exists>content. fs (filename a) = Readable content
               \<and> lineno - 1 \<le> int (length (readlines content))
               \<and> (?x \<in> set issues
                    \<longleftrightarrow> \<not> startswith (strip (readlines content ! nat (lineno - 2))) ''#'')
               \<and> ((\<exists>msg. (lineno, ''complex logic'', msg) \<in> set issues)
                    \<longleftrightarrow> \<not> startswith (strip (readlines content ! nat (lineno - 2))) ''#'')
               \<and> check_node dump fs a ?n
                   = Inr (if startswith (strip (readlines content ! nat (lineno - 2))) ''#''
                          then [] else [?x]))"
  proof
    assume l: "1 < lineno"
    from complex_node_issues(2) [OF assms(3) r(2) l] obtain content
      where f: "fs (filename a) = Readable content"
        and len: "lineno - 2 < int (length (readlines content))"
        and new: "node_issues dump fs a ?n
                 = (if startswith (strip (readlines content ! nat (lineno - 2))) ''#'' then []
                    else [?x])"
      by (auto simp: complex_issue_def)
    let ?c = "startswith (strip (readlines content ! nat (lineno - 2))) ''#''"
    have up: "\<not> ?c \<Longrightarrow> ?x \<in> set issues"
      using new r(1) by auto
    have down: "\<not> ?c" if "(lineno, ''complex logic'', msg) \<in> set issues" for msg
    proof -
      from issue_has_node [OF assms(1) that] obtain d' n'
        where "(lineno, ''complex logic'', msg) \<in> set (node_issues dump fs a n')" by blast
      from complex_logic_node [OF this] l obtain content'
        where "fs (filename a) = Readable content'"
          and "\<not> startswith (strip (readlines content' ! nat (lineno - 2))) ''#''"
        by blast
      with f show ?thesis by simp
    qed
    have i1: "?x \<in> set issues \<longleftrightarrow> \<not> ?c"
      using up down by blast
    have i2: "(\<exists>msg. (lineno, ''complex logic'', msg) \<in> set issues) \<longleftrightarrow> \<not> ?c"
      using up down by blast
    have i3: "check_node dump fs a ?n = Inr (if ?c then [] else [?x])"
      using r(2) new by simp
    from len have len': "lineno - 1 \<le> int (length (readlines content))" by simp
    from f len' i1 i2 i3
    show "\<exists>content. fs (filename a) = Readable content
               \<and> lineno - 1 \<le> int (length (readlines content))
               \<and> (?x \<in> set issues
                    \<longleftrightarrow> \<not> startswith (strip (readlines content ! nat (lineno - 2))) ''#'')
               \<and> ((\<exists>msg. (lineno, ''complex logic'', msg) \<in> set issues)
                    \<longleftrightarrow> \<not> startswith (strip (readlines content ! nat (lineno - 2))) ''#'')
               \<and> check_node dump fs a ?n
                   = Inr (if startswith (strip (readlines content ! nat (lineno - 2))) ''#''
                          then [] else [?x])"
      by blast
  qed
  from A B show ?thesis by (rule conjI)
qed

theorem complex_if_comment_above_witness:
  "check_missing_comments (\<lambda>n. ''Name'')
     (\<lambda>p. if p = ''f.py'' then Readable ''def f(a, b):\<newline>    # why \<newline>    if a:\<newline>        if b:\<newline>            pass\<newline>'' else Missing)
     \<lparr>filename = ''f.py'', style_guide = [], source_code = [],
      tree = Other ''Module''
        [FunctionDef ''f'' 1 [Other ''arguments'' []]
           [If_stmt 3 (Other ''Name'' [])
              [If_stmt 4 (Other ''Name'' []) [Other ''Pass'' []] []] []] []]\<rparr>
     = Inr [(1::int, ''function'', ''Missing docstring for function: f'')]
   \<and> strip ''    # why \<newline>'' = ''# why''
   \<and> (3, ''complex logic'', ''Missing comment for complex if statement'') \<notin> set [(1::int, ''function'', ''Missing docstring for function: f'')]
   \<and> check_missing_comments (\<lambda>n. ''Name'')
     (\<lambda>p. if p = ''f.py'' then Readable ''def f(a, b):\<newline>    x = 1\<newline>    if a:\<newline>        if b:\<newline>            pass\<newline>'' else Missing)
     \<lparr>filename = ''f.py'', style_guide = [], source_code = [],
      tree = Other ''Module''
        [FunctionDef ''f'' 1 [Other ''arguments'' []]
           [Other ''Assign'' [], If_stmt 3 (Other ''Name'' [])
              [If_stmt 4 (Other ''Name'' []) [Other ''Pass'' []] []] []] []]\<rparr>
     = Inr [(1::int, ''function'', ''Missing docstring for function: f''),
          (3, ''complex logic'', ''Missing comment for complex if statement'')]
   \<and> strip ''    x = 1\<newline>'' = ''x = 1''
   \<and> (3, ''complex logic'', ''Missing comment for complex if statement'') \<in> set [(1::int, ''function'', ''Missing docstring for function: f''),
          (3, ''complex logic'', ''Missing comment for complex if statement'')]
   \<and> check_missing_comments (\<lambda>n. ''Name'') (\<lambda>p. Missing)
     \<lparr>filename = ''f.py'', style_guide = [], source_code = [],
      tree = Other ''Module''
        [If_stmt 1 (Other ''Name'' [])
           [If_stmt 2 (Other ''Name'' []) [Other ''Pass'' []] []] []]\<rparr>
     = Inr [(1::int, ''complex logic'', ''Missing comment for complex if statement'')]
   \<and> (1, ''complex logic'', ''Missing comment for complex if statement'') \<in> set [(1::int, ''complex logic'', ''Missing comment for complex if statement'')]"
proof -
  let ?dump = "\<lambda>n::node. ''Name''"
  let ?c1 = "''def f(a, b):\<newline>    # why \<newline>    if a:\<newline>        if b:\<newline>            pass\<newline>''"
  let ?c2 = "''def f(a, b):\<newline>    x = 1\<newline>    if a:\<newline>        if b:\<newline>            pass\<newline>''"
  let ?fs1 = "\<lambda>p. if p = ''f.py'' then Readable ?c1 else Missing"
  let ?fs2 = "\<lambda>p. if p = ''f.py'' then Readable ?c2 else Missing"
  let ?I = "If_stmt 4 (Other ''Name'' []) [Other ''Pass'' []] []"
  let ?T1 = "Other ''Module''
        [FunctionDef ''f'' 1 [Other ''arguments'' []] [If_stmt 3 (Other ''Name'' []) [?I] []] []]"
  let ?T2 = "Other ''Module''
        [FunctionDef ''f'' 1 [Other ''arguments'' []]
           [Other ''Assign'' [], If_stmt 3 (Other ''Name'' []) [?I] []] []]"
  let ?J = "If_stmt 2 (Other ''Name'' []) [Other ''Pass'' []] []"
  let ?T3 = "Other ''Module'' [If_stmt 1 (Other ''Name'' []) [?J] []]"
  let ?A1 = "\<lparr>filename = ''f.py'', style_guide = [], source_code = [], tree = ?T1\<rparr>"
  let ?A2 = "\<lparr>filename = ''f.py'', style_guide = [], source_code = [], tree = ?T2\<rparr>"
  let ?A3 = "\<lparr>filename = ''f.py'', style_guide = [], source_code = [], tree = ?T3\<rparr>"
  let ?x = "(3::int, ''complex logic'', ''Missing comment for complex if statement'')"
  have l1: "readlines ?c1 = [''def f(a, b):\<newline>'', ''    # why \<newline>'', ''    if a:\<newline>'',
                             ''        if b:\<newline>'', ''            pass\<newline>'']"
    and l2: "readlines ?c2 = [''def f(a, b):\<newline>'', ''    x = 1\<newline>'', ''    if a:\<newline>'',
                             ''        if b:\<newline>'', ''            pass\<newline>'']"
    by simp_all
  have s1: "strip ''    # why \<newline>'' = ''# why''"
    and s2: "strip ''    x = 1\<newline>'' = ''x = 1''"
    by (simp_all add: text_eval)
  have run1: "check_missing_comments ?dump ?fs1 ?A1 = Inr [(1::int, ''function'', ''Missing docstring for function: f'')]"
    by (simp add: check_missing_comments_def walk_def complex_issue_def open_read_def
                  py_index_def extract_docstring_def l1 s1 startswith_def)
  have run2: "check_missing_comments ?dump ?fs2 ?A2 = Inr [(1::int, ''function'', ''Missing docstring for function: f''),
          (3, ''complex logic'', ''Missing comment for complex if statement'')]"
    by (simp add: check_missing_comments_def walk_def complex_issue_def open_read_def
                  py_index_def extract_docstring_def l2 s2 startswith_def)
  have run3: "check_missing_comments ?dump (\<lambda>p. Missing) ?A3 = Inr [(1::int, ''complex logic'', ''Missing comment for complex if statement'')]"
    by (simp add: check_missing_comments_def walk_def complex_issue_def)
  have m1: "If_stmt 3 (Other ''Name'' []) [?I] [] \<in> set (nodes_at_depth (Suc (Suc 0)) [tree ?A1])"
    and m2: "If_stmt 3 (Other ''Name'' []) [?I] [] \<in> set (nodes_at_depth (Suc (Suc 0)) [tree ?A2])"
    and m3: "If_stmt 1 (Other ''Name'' []) [?J] [] \<in> set (nodes_at_depth (Suc 0) [tree ?A3])"
    by simp_all
  have c1: "3 < length [?I] \<or> (\<exists>l t b e. If_stmt l t b e \<in> set [?I])
              \<or> 100 < length (?dump (Other ''Name'' []))"
    and c3: "3 < length [?J] \<or> (\<exists>l t b e. If_stmt l t b e \<in> set [?J])
              \<or> 100 < length (?dump (Other ''Name'' []))"
    by simp_all
  have a: "?x \<notin> set [(1::int, ''function'', ''Missing docstring for function: f'')]"
    using complex_if_comment_above [OF run1 m1 c1, THEN conjunct2]
    by (simp add: l1 s1 startswith_def)
  have b: "?x \<in> set [(1::int, ''function'', ''Missing docstring for function: f''),
          (3, ''complex logic'', ''Missing comment for complex if statement'')]"
    using complex_if_comment_above [OF run2 m2 c1, THEN conjunct2]
    by (simp add: l2 s2 startswith_def)
  have c: "(1, ''complex logic'', ''Missing comment for complex if statement'') \<in> set [(1::int, ''complex logic'', ''Missing comment for complex if statement'')]"
    using complex_if_comment_above [OF run3 m3 c3, THEN conjunct1]
    by simp
  from run1 s1 a run2 s2 b run3 c show ?thesis by (intro conjI)
qed

section \<open>Facts about the text operations\<close>

lemma rstrip_Nil_iff: "rstrip s = [] \<longleftrightarrow> (\<forall>c\<in>set s. is_space c)"
  by (simp add: rstrip_def dropWhile_eq_Nil_conv)

lemma rstrip_Cons:
  "rstrip (c # cs) = (if rstrip cs = [] \<and> is_space c then [] else c # rstrip cs)"
  by (auto simp: rstrip_def dropWhile_append dropWhile_eq_Nil_conv)

lemma rstrip_idem: "rstrip (rstrip s) = rstrip s"
  by (simp add: rstrip_def)

lemma lstrip_rstrip: "lstrip (rstrip s) = rstrip (lstrip s)"
proof (induction s)
  case Nil
  show ?case by (simp add: lstrip_def rstrip_def)
next
  case (Cons c cs)
  show ?case
  proof (cases "is_space c")
    case True
    then have l: "lstrip (c # cs) = lstrip cs" by (simp add: lstrip_def)
    show ?thesis
    proof (cases "rstrip cs = []")
      case True
      with \<open>is_space c\<close> have "rstrip (c # cs) = []" by (simp add: rstrip_Cons)
      moreover from True Cons.IH have "rstrip (lstrip cs) = []" by (simp add: lstrip_def)
      ultimately show ?thesis using l by (simp add: lstrip_def)
    next
      case False
      then have "rstrip (c # cs) = c # rstrip cs" by (simp add: rstrip_Cons)
      with \<open>is_space c\<close> have "lstrip (rstrip (c # cs)) = lstrip (rstrip cs)"
        by (simp add: lstrip_def)
      with Cons.IH l show ?thesis by simp
    qed
  next
    case False
    then show ?thesis by (simp add: lstrip_def rstrip_Cons)
  qed
qed

lemma strip_rstrip: "strip (rstrip s) = strip s"
  by (simp add: strip_def lstrip_rstrip rstrip_idem)

lemma set_strip: "set (strip s) \<subseteq> set s"
proof -
  have "set (strip s) \<subseteq> set (lstrip s)"
    using set_dropWhileD [of _ is_space "rev (lstrip s)"]
    by (auto simp: strip_def rstrip_def)
  also have "\<dots> \<subseteq> set s"
    using set_dropWhileD [of _ is_space s] by (auto simp: lstrip_def)
  finally show ?thesis .
qed

lemma hash_not_space: "\<not> is_space CHR ''#''"
  by (simp add: is_space_def)

lemma startswith_hash_in: "startswith (strip s) ''#'' \<Longrightarrow> CHR ''#'' \<in> set s"
proof -
  assume "startswith (strip s) ''#''"
  then obtain r where "strip s = CHR ''#'' # r"
    by (auto simp: startswith_def prefix_def)
  then have "CHR ''#'' \<in> set (strip s)" by simp
  with set_strip show ?thesis by blast
qed

lemma dropWhile_rstrip:
  "dropWhile (\<lambda>c. c \<noteq> CHR ''#'') (rstrip s) = rstrip (dropWhile (\<lambda>c. c \<noteq> CHR ''#'') s)"
proof (induction s)
  case Nil
  show ?case by (simp add: rstrip_def)
next
  case (Cons c cs)
  show ?case
  proof (cases "c = CHR ''#''")
    case True
    then show ?thesis by (simp add: rstrip_Cons hash_not_space)
  next
    case False
    show ?thesis
    proof (cases "rstrip cs = [] \<and> is_space c")
      case True
      with Cons.IH have "rstrip (dropWhile (\<lambda>c. c \<noteq> CHR ''#'') cs) = []" by simp
      with True \<open>c \<noteq> CHR ''#''\<close> show ?thesis by (simp add: rstrip_Cons)
    next
      case False
      then have "rstrip (c # cs) = c # rstrip cs" by (simp add: rstrip_Cons)
      with Cons.IH \<open>c \<noteq> CHR ''#''\<close> show ?thesis by simp
    qed
  qed
qed

lemma split_hash_index:
  assumes "CHR ''#'' \<in> set s"
  shows "py_index (split_hash_1 s) 1 = Inr (tl (dropWhile (\<lambda>c. c \<noteq> CHR ''#'') s))"
proof -
  from assms have "dropWhile (\<lambda>c. c \<noteq> CHR ''#'') s \<noteq> []"
    by (auto simp: dropWhile_eq_Nil_conv)
  then obtain x rest where "dropWhile (\<lambda>c. c \<noteq> CHR ''#'') s = x # rest"
    by (cases "dropWhile (\<lambda>c. c \<noteq> CHR ''#'') s") auto
  then show ?thesis by (simp add: split_hash_1_def py_index_def)
qed

lemma comment_text_body:
  assumes "CHR ''#'' \<in> set s"
  shows "strip (tl (dropWhile (\<lambda>c. c \<noteq> CHR ''#'') (rstrip s))) = comment_body s"
proof -
  from assms have "dropWhile (\<lambda>c. c \<noteq> CHR ''#'') s \<noteq> []"
    by (auto simp: dropWhile_eq_Nil_conv)
  then obtain rest where d: "dropWhile (\<lambda>c. c \<noteq> CHR ''#'') s = CHR ''#'' # rest"
    using hd_dropWhile [of "\<lambda>c. c \<noteq> CHR ''#''" s]
    by (cases "dropWhile (\<lambda>c. c \<noteq> CHR ''#'') s") auto
  have "tl (dropWhile (\<lambda>c. c \<noteq> CHR ''#'') (rstrip s)) = rstrip rest"
    by (simp add: dropWhile_rstrip d rstrip_Cons hash_not_space)
  then show ?thesis by (simp add: comment_body_def d strip_rstrip)
qed

section \<open>The style checker line by line\<close>

lemma style_line_spec:
  assumes "well_typed sg"
  shows "style_line sg i raw = Inr (spec_line_issues sg i raw)"
proof (cases "startswith (strip raw) ''#''")
  case False
  then show ?thesis by (simp add: style_line_def spec_line_issues_def strip_rstrip)
next
  case True
  then have h: "CHR ''#'' \<in> set raw" by (rule startswith_hash_in)
  from True have h': "CHR ''#'' \<in> set (rstrip raw)"
    using startswith_hash_in [of "rstrip raw"] by (simp add: strip_rstrip)
  have body: "strip (tl (dropWhile (\<lambda>c. c \<noteq> CHR ''#'') (rstrip raw))) = comment_body raw"
    by (rule comment_text_body [OF h])
  from assms show ?thesis
    by (auto simp: style_line_def spec_line_issues_def strip_rstrip True
                   split_hash_index [OF h'] body length_check_def prefix_check_def
                   well_typed_def
             split: option.splits pyval.splits)
qed

lemma style_loop_spec:
  assumes "well_typed sg"
  shows "style_loop sg (int n) lines acc
           = Inr (acc @ concat (map (\<lambda>(k, raw). spec_line_issues sg (int k) raw)
                                   (enumerate n lines)))"
proof (induction lines arbitrary: n acc)
  case Nil
  show ?case by simp
next
  case (Cons l ls)
  from Cons.IH [of "Suc n" "acc @ spec_line_issues sg (int n) l"]
  have "style_loop sg (int n + 1) ls (acc @ spec_line_issues sg (int n) l)
          = Inr ((acc @ spec_line_issues sg (int n) l)
                 @ concat (map (\<lambda>(k, raw). spec_line_issues sg (int k) raw)
                              (enumerate (Suc n) ls)))"
    by (simp add: add.commute)
  then show ?case
    by (simp add: style_line_spec [OF assms])
qed


text \<open>
  Claim C2. With an empty style guide the checker returns the empty list, whatever the
  file is. With a style guide that is not empty, typed as the specification types it, and
  a file that can be read, the result is, line after line from line 1, what the
  specification gives for the line: nothing when the trimmed line does not start with
  "#"; otherwise the "length" issue if and only if \<open>min_length\<close> is configured and the
  body is shorter, followed by the "prefix" issue if and only if \<open>required_prefix\<close> is
  configured and the body does not start with it.
\<close>

theorem style_issues_of_comment_lines:
  "(style_guide a = [] \<longrightarrow> enforce_comment_style_consistency fs a = Inr [])
   \<and> (style_guide a \<noteq> [] \<and> well_typed (style_guide a) \<and> fs (filename a) = Readable content
        \<longrightarrow> enforce_comment_style_consistency fs a
            = Inr (concat (map (\<lambda>(k, raw). spec_line_issues (style_guide a) (int k) raw)
                               (enumerate 1 (readlines content)))))
   \<and> (\<forall>sg i raw. \<not> startswith (strip raw) ''#'' \<longrightarrow> spec_line_issues sg i raw = [])
   \<and> (\<forall>sg i raw. length (spec_line_issues sg i raw) \<le> 2)"
proof -
  have A: "style_guide a = [] \<longrightarrow> enforce_comment_style_consistency fs a = Inr []"
    by (simp add: enforce_comment_style_consistency_def)
  have B: "style_guide a \<noteq> [] \<and> well_typed (style_guide a) \<and> fs (filename a) = Readable content
        \<longrightarrow> enforce_comment_style_consistency fs a
            = Inr (concat (map (\<lambda>(k, raw). spec_line_issues (style_guide a) (int k) raw)
                               (enumerate 1 (readlines content))))"
  proof (intro impI, elim conjE)
    assume ne: "style_guide a \<noteq> []" and wt: "well_typed (style_guide a)"
      and f: "fs (filename a) = Readable content"
    from style_loop_spec [OF wt, of 1 "readlines content" "[]"]
    have "style_loop (style_guide a) 1 (readlines content) []
            = Inr (concat (map (\<lambda>(k, raw). spec_line_issues (style_guide a) (int k) raw)
                               (enumerate 1 (readlines content))))"
      by simp
    with ne f show "enforce_comment_style_consistency fs a
            = Inr (concat (map (\<lambda>(k, raw). spec_line_issues (style_guide a) (int k) raw)
                               (enumerate 1 (readlines content))))"
      by (simp add: enforce_comment_style_consistency_def open_read_def)
  qed
  have C: "\<forall>sg i raw. \<not> startswith (strip raw) ''#'' \<longrightarrow> spec_line_issues sg i raw = []"
    by (simp add: spec_line_issues_def)
  have D: "\<forall>sg i raw. length (spec_line_issues sg i raw) \<le> 2"
    by (auto simp: spec_line_issues_def split: option.splits pyval.splits)
  from A B C D show ?thesis by (intro conjI)
qed

theorem style_issues_of_comment_lines_witness:
  "enforce_comment_style_consistency
     (\<lambda>p. if p = ''f.py'' then Readable ''# ok\<newline>x = 1  # trailing comment\<newline>    # TODO: fix this  \<newline>#TODO: a\<newline>  ## this is long enough\<newline>'' else Missing)
     \<lparr>filename = ''f.py'', style_guide = [(''min_length'', VInt 10), (''required_prefix'', VStr ''TODO:'')],
      source_code = [], tree = Other ''Module'' [Other ''Assign'' []]\<rparr>
     = Inr [(1::int, ''length'', ''Comment is too short (min length: 10)''),
          (1, ''prefix'', ''Comment does not start with required prefix: TODO:''),
          (4, ''length'', ''Comment is too short (min length: 10)''),
          (5, ''prefix'', ''Comment does not start with required prefix: TODO:'')]
   \<and> concat (map (\<lambda>(k, raw). spec_line_issues [(''min_length'', VInt 10), (''required_prefix'', VStr ''TODO:'')] (int k) raw)
        (enumerate 1 (readlines ''# ok\<newline>x = 1  # trailing comment\<newline>    # TODO: fix this  \<newline>#TODO: a\<newline>  ## this is long enough\<newline>'')))
     = [(1::int, ''length'', ''Comment is too short (min length: 10)''),
          (1, ''prefix'', ''Comment does not start with required prefix: TODO:''),
          (4, ''length'', ''Comment is too short (min length: 10)''),
          (5, ''prefix'', ''Comment does not start with required prefix: TODO:'')]
   \<and> comment_body ''    # TODO: fix this  \<newline>'' = ''TODO: fix this''
   \<and> enforce_comment_style_consistency (\<lambda>p. Missing)
     \<lparr>filename = ''f.py'', style_guide = [],
      source_code = [], tree = Other ''Module'' [Other ''Assign'' []]\<rparr>
     = Inr []"
proof -
  let ?sg = "[(''min_length'', VInt 10), (''required_prefix'', VStr ''TODO:'')]"
  let ?content = "''# ok\<newline>x = 1  # trailing comment\<newline>    # TODO: fix this  \<newline>#TODO: a\<newline>  ## this is long enough\<newline>''"
  let ?fs = "\<lambda>p. if p = ''f.py'' then Readable ?content else Missing"
  let ?A = "\<lparr>filename = ''f.py'', style_guide = [(''min_length'', VInt 10), (''required_prefix'', VStr ''TODO:'')],
      source_code = [], tree = Other ''Module'' [Other ''Assign'' []]\<rparr>"
  let ?Z = "\<lparr>filename = ''f.py'', style_guide = [],
      source_code = [], tree = Other ''Module'' [Other ''Assign'' []]\<rparr>"
  let ?E = "[(1::int, ''length'', ''Comment is too short (min length: 10)''),
          (1, ''prefix'', ''Comment does not start with required prefix: TODO:''),
          (4, ''length'', ''Comment is too short (min length: 10)''),
          (5, ''prefix'', ''Comment does not start with required prefix: TODO:'')]"
  have run: "enforce_comment_style_consistency ?fs ?A = Inr ?E"
    by (simp add: style_eval text_eval show_int_10)
  have wt: "well_typed ?sg"
    by (simp add: well_typed_def)
  have spec: "concat (map (\<lambda>(k, raw). spec_line_issues ?sg (int k) raw)
                          (enumerate 1 (readlines ?content))) = ?E"
  proof -
    have pre: "style_guide ?A \<noteq> [] \<and> well_typed (style_guide ?A)
                 \<and> ?fs (filename ?A) = Readable ?content"
      using wt by simp
    from style_issues_of_comment_lines
            [where a = ?A and fs = ?fs and content = ?content, THEN conjunct2, THEN conjunct1,
             rule_format, OF pre] run
    have "Inr (concat (map (\<lambda>(k, raw). spec_line_issues (style_guide ?A) (int k) raw)
                          (enumerate 1 (readlines ?content)))) = (Inr ?E :: error + issue list)"
      by (rule trans [OF sym])
    then show ?thesis
      by (simp only: sum.inject analyzer.select_convs)
  qed
  have body: "comment_body ''    # TODO: fix this  \<newline>'' = ''TODO: fix this''"
    by (simp add: comment_body_def text_eval)
  have none: "enforce_comment_style_consistency (\<lambda>p. Missing) ?Z = Inr []"
    using style_issues_of_comment_lines
            [where a = ?Z and fs = "\<lambda>p. Missing", THEN conjunct1]
    by simp
  from run spec body none show ?thesis by (intro conjI)
qed

section \<open>The detectors return\<close>





section \<open>The staleness heuristic pair by pair\<close>

lemma scan_vars_find:
  "scan_vars k c vars =
     (case find (\<lambda>w. 2 < length w \<and> sublist w c) vars of
        None \<Rightarrow> []
      | Some w \<Rightarrow> [outdated_issue (k + 1) w])"
  by (induction vars) auto

lemma scan_window_pairs:
  "scan_window lines i line offsets acc =
     acc @ concat (map (\<lambda>k. if 0 \<le> k \<and> k < int (length lines)
                               then (if startswith (strip (lines ! nat k)) ''#''
                                     then scan_vars k (strip (lines ! nat k)) (findall_words line)
                                     else [])
                               else [])
                       (map (\<lambda>offset. i + offset) offsets))"
  by (induction offsets arbitrary: acc) (simp_all add: Let_def)

lemma window_indices: "map (\<lambda>offset. i + offset) [-3..3] = [i - 3..i + 3]"
proof -
  have "[i - 3..i + 3] = [i - 3, i - 2, i - 1, i, i + 1, i + 2, i + 3]"
    by (simp add: upto.simps)
  then show ?thesis unfolding window_offsets by simp
qed

lemma filter_upto_clamp:
  "filter (\<lambda>k. 0 \<le> k \<and> k < int n) [a..b] = [max 0 a..min (int n - 1) b]"
proof (rule sorted_distinct_set_unique)
  show "sorted (filter (\<lambda>k. 0 \<le> k \<and> k < int n) [a..b])"
    by (rule sorted_wrt_filter) simp
  show "distinct (filter (\<lambda>k. 0 \<le> k \<and> k < int n) [a..b])"
    by simp
  show "sorted [max 0 a..min (int n - 1) b]" by simp
  show "distinct [max 0 a..min (int n - 1) b]" by simp
  show "set (filter (\<lambda>k. 0 \<le> k \<and> k < int n) [a..b]) = set [max 0 a..min (int n - 1) b]"
    by auto
qed

lemma concat_map_filter:
  "concat (map (\<lambda>k. if P k then f k else []) xs) = concat (map f (filter P xs))"
  by (induction xs) simp_all

lemma scan_window_spec:
  "scan_window lines (int i) (lines ! i) [-3..3] acc
     = acc @ concat (map (pair_issues lines i) (window (length lines) (int i)))"
proof -
  have eq: "(if startswith (strip (lines ! nat k)) ''#''
             then scan_vars k (strip (lines ! nat k)) (findall_words (lines ! i))
             else []) = pair_issues lines i k" for k
    by (simp add: pair_issues_def first_token_def scan_vars_find outdated_issue_def
             split: option.splits)
  show ?thesis
    by (simp only: scan_window_pairs window_indices
                   concat_map_filter [where P = "\<lambda>k. 0 \<le> k \<and> k < int (length lines)"]
                   filter_upto_clamp window_def eq)
qed

lemma scan_lines_spec:
  "lines = pre @ rest \<Longrightarrow>
   scan_lines lines (int (length pre)) rest acc
     = acc @ concat (map (\<lambda>i. if changed_line (lines ! i)
                               then concat (map (pair_issues lines i)
                                                (window (length lines) (int i)))
                               else [])
                         [length pre..<length lines])"
proof (induction rest arbitrary: pre acc)
  case Nil
  then show ?case by simp
next
  case (Cons l rs)
  from Cons.prems have l: "lines ! length pre = l" by simp
  from Cons.prems have split: "lines = (pre @ [l]) @ rs" by simp
  from Cons.prems have "length pre < length lines" by simp
  from upt_conv_Cons [OF this]
  have up: "[length pre..<length lines] = length pre # [length (pre @ [l])..<length lines]"
    by simp
  have one: "int (length pre) + 1 = int (length (pre @ [l]))" by simp
  show ?case
    unfolding scan_lines.simps one Cons.IH [OF split] up
    using scan_window_spec [of lines "length pre" acc] l
    by simp
qed

lemma identify_spec:
  "fs (filename a) = Readable content \<Longrightarrow>
   identify_outdated_comments fs a = Inr (spec_outdated (readlines content))"
  using scan_lines_spec [of "readlines content" "[]" "readlines content" "[]"]
  by (simp add: identify_outdated_comments_def open_read_def spec_outdated_def Let_def)


lemma find_first:
  "\<forall>y\<in>set ys. \<not> P y \<Longrightarrow> P x \<Longrightarrow> find P (ys @ x # zs) = Some x"
  by (induction ys) simp_all

text \<open>
  Claim C5. When the file can be read, the result of the staleness heuristic is the one
  the specification gives: for each line that contains the pattern, in order, and each
  line of its window, in order, the issues of the pair. The window of the line at index
  \<open>i\<close> holds the indices of the file from \<open>i - 3\<close> to \<open>i + 3\<close>. A pair whose line is a comment
  and for which some word of the changed line longer than 2 characters occurs in the
  comment's text gives exactly one issue, on the comment's line, citing the first such
  word; any other pair gives no issue.
\<close>

theorem outdated_issue_per_pair:
  assumes "fs (filename a) = Readable content"
  shows "identify_outdated_comments fs a = Inr (spec_outdated (readlines content))
       \<and> (\<forall>n i j. j \<in> set (window n i)
             \<longleftrightarrow> 0 \<le> j \<and> j < int n \<and> i - 3 \<le> j \<and> j \<le> i + 3)
       \<and> (\<forall>lines i j.
             startswith (strip (lines ! nat j)) ''#''
             \<and> (\<exists>w\<in>set (findall_words (lines ! i)).
                   2 < length w \<and> sublist w (strip (lines ! nat j)))
             \<longrightarrow> (\<exists>pre w post.
                    findall_words (lines ! i) = pre @ w # post
                    \<and> 2 < length w \<and> sublist w (strip (lines ! nat j))
                    \<and> (\<forall>v\<in>set pre. \<not> (2 < length v \<and> sublist v (strip (lines ! nat j))))
                    \<and> pair_issues lines i j
                        = [(j + 1, ''outdated'',
                            ''Possible outdated comment near changed line. Comment might be related to variable: ''
                            @ w)]))
       \<and> (\<forall>lines i j.
             \<not> startswith (strip (lines ! nat j)) ''#''
             \<or> (\<forall>w\<in>set (findall_words (lines ! i)).
                   \<not> (2 < length w \<and> sublist w (strip (lines ! nat j))))
             \<longrightarrow> pair_issues lines i j = [])"
proof -
  have A: "identify_outdated_comments fs a = Inr (spec_outdated (readlines content))"
    using assms by (rule identify_spec)
  have B: "\<forall>n i j. j \<in> set (window n i)
             \<longleftrightarrow> 0 \<le> j \<and> j < int n \<and> i - 3 \<le> j \<and> j \<le> i + 3"
    by (auto simp: window_def)
  have C: "\<forall>lines i j.
             startswith (strip (lines ! nat j)) ''#''
             \<and> (\<exists>w\<in>set (findall_words (lines ! i)).
                   2 < length w \<and> sublist w (strip (lines ! nat j)))
             \<longrightarrow> (\<exists>pre w post.
                    findall_words (lines ! i) = pre @ w # post
                    \<and> 2 < length w \<and> sublist w (strip (lines ! nat j))
                    \<and> (\<forall>v\<in>set pre. \<not> (2 < length v \<and> sublist v (strip (lines ! nat j))))
                    \<and> pair_issues lines i j
                        = [(j + 1, ''outdated'',
                            ''Possible outdated comment near changed line. Comment might be related to variable: ''
                            @ w)])"
  proof (intro allI impI, elim conjE)
    fix lines :: "string list" and i :: nat and j :: int
    let ?c = "strip (lines ! nat j)"
    let ?P = "\<lambda>w. 2 < length w \<and> sublist w ?c"
    assume c: "startswith ?c ''#''"
      and "\<exists>w\<in>set (findall_words (lines ! i)). 2 < length w \<and> sublist w ?c"
    from split_list_first_prop [OF this(2)] obtain pre w post
      where sp: "findall_words (lines ! i) = pre @ w # post"
        and w: "?P w" and pre: "\<forall>v\<in>set pre. \<not> ?P v"
      by blast
    from find_first [of pre ?P w post] pre w
    have "first_token (lines ! i) ?c = Some w"
      by (simp add: first_token_def sp)
    with c have "pair_issues lines i j
                   = [(j + 1, ''outdated'',
                       ''Possible outdated comment near changed line. Comment might be related to variable: ''
                       @ w)]"
      by (simp add: pair_issues_def)
    with sp w pre
    show "\<exists>pre w post.
                    findall_words (lines ! i) = pre @ w # post
                    \<and> 2 < length w \<and> sublist w ?c
                    \<and> (\<forall>v\<in>set pre. \<not> (2 < length v \<and> sublist v ?c))
                    \<and> pair_issues lines i j
                        = [(j + 1, ''outdated'',
                            ''Possible outdated comment near changed line. Comment might be related to variable: ''
                            @ w)]"
      by blast
  qed
  have D: "\<forall>lines i j.
             \<not> startswith (strip (lines ! nat j)) ''#''
             \<or> (\<forall>w\<in>set (findall_words (lines ! i)).
                   \<not> (2 < length w \<and> sublist w (strip (lines ! nat j))))
             \<longrightarrow> pair_issues lines i j = []"
    by (auto simp: pair_issues_def first_token_def find_None_iff split: option.splits)
  from A B C D show ?thesis by (intro conjI)
qed

theorem outdated_issue_per_pair_witness:
  "identify_outdated_comments
     (\<lambda>p. if p = ''f.py'' then Readable ''# uses val\<newline>\<newline>\<newline>result = val + 5\<newline>'' else Missing)
     \<lparr>filename = ''f.py'', style_guide = [], source_code = [],
      tree = Other ''Module'' [Other ''Assign'' []]\<rparr>
     = Inr [(1::int, ''outdated'',
        ''Possible outdated comment near changed line. Comment might be related to variable: val'')]
   \<and> spec_outdated (readlines ''# uses val\<newline>\<newline>\<newline>result = val + 5\<newline>'')
     = [(1::int, ''outdated'',
        ''Possible outdated comment near changed line. Comment might be related to variable: val'')]
   \<and> identify_outdated_comments
     (\<lambda>p. if p = ''f.py'' then Readable ''# nothing here\<newline>\<newline>\<newline>result = val + 5\<newline>'' else Missing)
     \<lparr>filename = ''f.py'', style_guide = [], source_code = [],
      tree = Other ''Module'' [Other ''Assign'' []]\<rparr>
     = Inr []
   \<and> spec_outdated (readlines ''# nothing here\<newline>\<newline>\<newline>result = val + 5\<newline>'') = []
   \<and> identify_outdated_comments
     (\<lambda>p. if p = ''f.py'' then Readable ''# val\<newline># val result\<newline>x = 1\<newline># nothing\<newline>result = val + 5\<newline>\<newline>y = 2\<newline>    # uses val\<newline># val\<newline>'' else Missing)
     \<lparr>filename = ''f.py'', style_guide = [], source_code = [],
      tree = Other ''Module'' [Other ''Assign'' []]\<rparr>
     = Inr [(2::int, ''outdated'',
        ''Possible outdated comment near changed line. Comment might be related to variable: result''),
       (8, ''outdated'',
        ''Possible outdated comment near changed line. Comment might be related to variable: val'')]
   \<and> spec_outdated (readlines ''# val\<newline># val result\<newline>x = 1\<newline># nothing\<newline>result = val + 5\<newline>\<newline>y = 2\<newline>    # uses val\<newline># val\<newline>'')
     = [(2::int, ''outdated'',
        ''Possible outdated comment near changed line. Comment might be related to variable: result''),
       (8, ''outdated'',
        ''Possible outdated comment near changed line. Comment might be related to variable: val'')]"
proof -
  let ?c1 = "''# uses val\<newline>\<newline>\<newline>result = val + 5\<newline>''"
  let ?c2 = "''# nothing here\<newline>\<newline>\<newline>result = val + 5\<newline>''"
  let ?c3 = "''# val\<newline># val result\<newline>x = 1\<newline># nothing\<newline>result = val + 5\<newline>\<newline>y = 2\<newline>    # uses val\<newline># val\<newline>''"
  let ?fs1 = "\<lambda>p. if p = ''f.py'' then Readable ?c1 else Missing"
  let ?fs2 = "\<lambda>p. if p = ''f.py'' then Readable ?c2 else Missing"
  let ?fs3 = "\<lambda>p. if p = ''f.py'' then Readable ?c3 else Missing"
  let ?A = "\<lparr>filename = ''f.py'', style_guide = [], source_code = [],
      tree = Other ''Module'' [Other ''Assign'' []]\<rparr>"
  let ?E1 = "[(1::int, ''outdated'',
        ''Possible outdated comment near changed line. Comment might be related to variable: val'')]"
  let ?E3 = "[(2::int, ''outdated'',
        ''Possible outdated comment near changed line. Comment might be related to variable: result''),
       (8, ''outdated'',
        ''Possible outdated comment near changed line. Comment might be related to variable: val'')]"
  have r1: "identify_outdated_comments ?fs1 ?A = Inr ?E1"
    by (simp add: outdated_eval text_eval Let_def del: scan_lines.simps(2))
  have r2: "identify_outdated_comments ?fs2 ?A = Inr []"
    by (simp add: outdated_eval text_eval Let_def del: scan_lines.simps(2))
  have r3: "identify_outdated_comments ?fs3 ?A = Inr ?E3"
    by (simp add: outdated_eval text_eval Let_def del: scan_lines.simps(2))
  have f1: "?fs1 (filename ?A) = Readable ?c1" and f2: "?fs2 (filename ?A) = Readable ?c2"
    and f3: "?fs3 (filename ?A) = Readable ?c3"
    by simp_all
  from outdated_issue_per_pair [where fs = ?fs1 and a = ?A and content = ?c1, OF f1,
                                THEN conjunct1] r1
  have "Inr (spec_outdated (readlines ?c1)) = (Inr ?E1 :: error + issue list)"
    by (rule trans [OF sym])
  then have s1: "spec_outdated (readlines ?c1) = ?E1"
    by (simp only: sum.inject)
  from outdated_issue_per_pair [where fs = ?fs2 and a = ?A and content = ?c2, OF f2,
                                THEN conjunct1] r2
  have "Inr (spec_outdated (readlines ?c2)) = (Inr [] :: error + issue list)"
    by (rule trans [OF sym])
  then have s2: "spec_outdated (readlines ?c2) = []"
    by (simp only: sum.inject)
  from outdated_issue_per_pair [where fs = ?fs3 and a = ?A and content = ?c3, OF f3,
                                THEN conjunct1] r3
  have "Inr (spec_outdated (readlines ?c3)) = (Inr ?E3 :: error + issue list)"
    by (rule trans [OF sym])
  then have s3: "spec_outdated (readlines ?c3) = ?E3"
    by (simp only: sum.inject)
  from r1 s1 r2 s2 r3 s3 show ?thesis by (intro conjI)
qed

section \<open>Words of a line and the stripped line\<close>

lemma word_not_space: "is_word_char c \<Longrightarrow> \<not> is_space c"
  by (auto simp: is_word_char_def is_space_def)

lemma findall_words_tokens:
  "w \<in> set (findall_words s) \<Longrightarrow> sublist w s \<and> w \<noteq> [] \<and> (\<forall>c\<in>set w. is_word_char c)"
proof (induction s rule: findall_words.induct)
  case 1
  then show ?case by simp
next
  case (2 c cs)
  show ?case
  proof (cases "is_word_char c")
    case False
    with 2 have "sublist w cs \<and> w \<noteq> [] \<and> (\<forall>c\<in>set w. is_word_char c)" by simp
    then show ?thesis by (auto intro: sublist_Cons_right [THEN iffD2])
  next
    case True
    with "2.prems" consider "w = c # takeWhile is_word_char cs"
      | "w \<in> set (findall_words (dropWhile is_word_char cs))"
      by auto
    then show ?thesis
    proof cases
      case 1
      have "c # cs = w @ dropWhile is_word_char cs" by (simp add: 1)
      then have "prefix w (c # cs)" by (metis prefixI)
      then have "sublist w (c # cs)" by (rule prefix_imp_sublist)
      moreover have "\<forall>x\<in>set w. is_word_char x"
        using True by (auto simp: 1 dest: set_takeWhileD)
      ultimately show ?thesis by (simp add: 1)
    next
      case 2
      with "2.IH"(1) [OF True] have w: "sublist w (dropWhile is_word_char cs)"
        and rest: "w \<noteq> [] \<and> (\<forall>c\<in>set w. is_word_char c)"
        by simp_all
      have "suffix (dropWhile is_word_char cs) (c # cs)"
        by (rule suffix_ConsI) (rule suffix_dropWhile)
      then have "sublist (dropWhile is_word_char cs) (c # cs)" by (rule suffix_imp_sublist)
      with w have "sublist w (c # cs)"
        unfolding sublist_def by (metis append.assoc)
      with rest show ?thesis by simp
    qed
  qed
qed

lemma lstrip_keeps:
  "w \<noteq> [] \<Longrightarrow> \<not> is_space (hd w) \<Longrightarrow> \<exists>a'. dropWhile is_space (a @ w @ b) = a' @ w @ b"
proof (induction a)
  case Nil
  then have "dropWhile is_space (w @ b) = w @ b" by (cases w) simp_all
  then show ?case by (intro exI [of _ "[]"]) simp
next
  case (Cons x xs)
  show ?case
  proof (cases "is_space x")
    case True
    with Cons show ?thesis by simp
  next
    case False
    then show ?thesis by (intro exI [of _ "x # xs"]) simp
  qed
qed

lemma strip_keeps:
  assumes "sublist w s" and "w \<noteq> []" and "\<not> is_space (hd w)" and "\<not> is_space (last w)"
  shows "sublist w (strip s)"
proof -
  from assms(1) obtain a b where "s = a @ w @ b" by (auto simp: sublist_def)
  with lstrip_keeps [OF assms(2,3), of a b] obtain a' where l: "lstrip s = a' @ w @ b"
    by (auto simp: lstrip_def)
  from assms(2,4) have "rev w \<noteq> []" and "\<not> is_space (hd (rev w))"
    by (simp_all add: hd_rev)
  from lstrip_keeps [OF this, of "rev b" "rev a'"] obtain b'
    where "dropWhile is_space (rev b @ rev w @ rev a') = b' @ rev w @ rev a'" by blast
  then have "strip s = a' @ w @ rev b'"
    by (simp add: strip_def rstrip_def l)
  then show ?thesis by (auto simp: sublist_def)
qed

lemma token_in_stripped:
  assumes "w \<in> set (findall_words s)"
  shows "sublist w (strip s)"
proof -
  from findall_words_tokens [OF assms] have s: "sublist w s" and n: "w \<noteq> []"
    and c: "\<forall>c\<in>set w. is_word_char c" by simp_all
  from n c have "is_word_char (hd w)" and "is_word_char (last w)" by simp_all
  then have "\<not> is_space (hd w)" and "\<not> is_space (last w)"
    by (simp_all add: word_not_space)
  with s n show ?thesis by (intro strip_keeps)
qed

lemma word_in_token:
  "u \<noteq> [] \<Longrightarrow> \<forall>c\<in>set u. is_word_char c \<Longrightarrow> sublist u s
     \<Longrightarrow> \<exists>w\<in>set (findall_words s). sublist u w"
proof (induction s rule: findall_words.induct)
  case 1
  then show ?case by simp
next
  case (2 c cs)
  show ?case
  proof (cases "is_word_char c")
    case False
    from "2.prems"(3) have "prefix u (c # cs) \<or> sublist u cs"
      by (simp add: sublist_Cons_right)
    moreover have "\<not> prefix u (c # cs)"
    proof
      assume "prefix u (c # cs)"
      with "2.prems"(1) have "hd u = c" by (cases u) simp_all
      with "2.prems"(1,2) False show False by (cases u) simp_all
    qed
    ultimately have "sublist u cs" by simp
    with "2.IH"(2) [OF False "2.prems"(1,2)] False show ?thesis by simp
  next
    case True
    let ?t = "c # takeWhile is_word_char cs"
    let ?r = "dropWhile is_word_char cs"
    have split: "c # cs = ?t @ ?r" by simp
    from "2.prems"(3) have "sublist u (?t @ ?r)" by (simp only: split [symmetric])
    then consider "sublist u ?t" | "sublist u ?r"
      | s p where "u = s @ p" "suffix s ?t" "prefix p ?r" "s \<noteq> []" "p \<noteq> []"
      unfolding sublist_append by (metis append_Nil2 suffix_imp_sublist self_append_conv2
                                         prefix_imp_sublist)
    then show ?thesis
    proof cases
      case 1
      with True show ?thesis by auto
    next
      case 2
      from "2.IH"(1) [OF True "2.prems"(1,2) 2] True show ?thesis by auto
    next
      case 3
      from 3(3) obtain zs where r: "?r = p @ zs" by (auto simp: prefix_def)
      with 3(5) have "?r \<noteq> []" by simp
      moreover from r 3(5) have "hd p = hd ?r" by simp
      ultimately have "\<not> is_word_char (hd p)"
        using hd_dropWhile [of is_word_char cs] by simp
      moreover from 3(1,5) "2.prems"(2) have "is_word_char (hd p)" by (cases p) auto
      ultimately show ?thesis by simp
    qed
  qed
qed


lemma rstrip_prefix: "prefix (rstrip s) s"
proof -
  have "rev s = takeWhile is_space (rev s) @ dropWhile is_space (rev s)" by simp
  then have "s = rev (dropWhile is_space (rev s)) @ rev (takeWhile is_space (rev s))"
    by (metis rev_append rev_rev_ident)
  then show ?thesis by (metis prefixI rstrip_def)
qed

lemma findall_words_lstrip: "findall_words (lstrip s) = findall_words s"
proof (induction s)
  case Nil
  show ?case by (simp add: lstrip_def)
next
  case (Cons c cs)
  show ?case
  proof (cases "is_space c")
    case True
    then have "\<not> is_word_char c" using word_not_space by blast
    with True Cons show ?thesis by (simp add: lstrip_def)
  next
    case False
    then show ?thesis by (simp add: lstrip_def)
  qed
qed

lemma first_word_result:
  assumes "startswith (strip line) ''# result ''"
  shows "find (\<lambda>w. 2 < length w) (findall_words line) = Some ''result''"
proof -
  from assms have "prefix ''# result '' (rstrip (lstrip line))"
    by (simp add: startswith_def strip_def)
  from this rstrip_prefix [of "lstrip line"] have "prefix ''# result '' (lstrip line)"
    by (rule prefix_order.trans)
  then obtain tail where "lstrip line = ''# result '' @ tail" by (auto simp: prefix_def)
  then have "findall_words (lstrip line) = findall_words (''# result '' @ tail)" by simp
  also have "\<dots> = ''result'' # findall_words (dropWhile is_word_char ('' '' @ tail))"
    by (simp add: is_word_char_def)
  finally show ?thesis by (simp add: findall_words_lstrip)
qed

lemma own_line_token:
  assumes "changed_line line"
  shows "\<exists>w. find (\<lambda>w. 2 < length w) (findall_words line) = Some w
            \<and> first_token line (strip line) = Some w"
proof -
  have "prefix ''result'' ''result = val + 5''" by simp
  then have "sublist ''result'' ''result = val + 5''" by (rule prefix_imp_sublist)
  with assms have "sublist ''result'' line"
    unfolding changed_line_def sublist_def by (metis append.assoc)
  moreover have "\<forall>c\<in>set ''result''. is_word_char c" by (simp add: is_word_char_def)
  ultimately obtain t where t: "t \<in> set (findall_words line)" and "sublist ''result'' t"
    using word_in_token [of "''result''" line] by auto
  then have "length ''result'' \<le> length t" by (intro sublist_length_le)
  then have "2 < length t" by simp
  with t have "find (\<lambda>w. 2 < length w) (findall_words line) \<noteq> None"
    by (auto simp: find_None_iff)
  then obtain w where w: "find (\<lambda>w. 2 < length w) (findall_words line) = Some w" by auto
  have "find (\<lambda>w. 2 < length w \<and> sublist w (strip line)) (findall_words line)
          = find (\<lambda>w. 2 < length w) (findall_words line)"
    by (rule find_cong) (simp_all add: token_in_stripped)
  with w show ?thesis by (simp add: first_token_def)
qed

lemma pair_in_result:
  assumes "i < length lines" and "changed_line (lines ! i)" and "j \<in> set (window (length lines) (int i))"
    and "x \<in> set (pair_issues lines i j)"
  shows "x \<in> set (spec_outdated lines)"
  using assms unfolding spec_outdated_def by auto

text \<open>
  Claim C9. The claim is that a comment line containing the pattern is reported on
  itself with the token \<open>result\<close> cited. The one-line file \<open># foo result = val + 5\<close> is
  such a line; the heuristic reports it citing \<open>foo\<close>, the first word of the line longer
  than 2 characters, and nothing else.
\<close>

theorem own_line_other_token_counterexample:
  "startswith (strip ''# foo result = val + 5\<newline>'') ''#''
   \<and> changed_line ''# foo result = val + 5\<newline>''
   \<and> identify_outdated_comments (\<lambda>p. Readable ''# foo result = val + 5\<newline>'')
       \<lparr>filename = ''f.py'', style_guide = [], source_code = [],
      tree = Other ''Module'' []\<rparr>
     = Inr [(1, ''outdated'',
             ''Possible outdated comment near changed line. Comment might be related to variable: foo'')]"
proof -
  have a: "startswith (strip ''# foo result = val + 5\<newline>'') ''#''"
    by (simp add: text_eval)
  have b: "changed_line ''# foo result = val + 5\<newline>''"
    by (simp add: changed_line_def sublist_code)
  have c: "identify_outdated_comments (\<lambda>p. Readable ''# foo result = val + 5\<newline>'')
       \<lparr>filename = ''f.py'', style_guide = [], source_code = [],
      tree = Other ''Module'' []\<rparr>
     = Inr [(1, ''outdated'',
             ''Possible outdated comment near changed line. Comment might be related to variable: foo'')]"
    by (simp add: outdated_eval text_eval Let_def del: scan_lines.simps(2))
  from a b c show ?thesis by (intro conjI)
qed

text \<open>
  Claim C9, amended. When the file can be read, a line whose trimmed text starts with "#"
  and which contains the pattern is reported on itself, and the token cited is the first
  word of the line that is longer than 2 characters. That word is \<open>result\<close> when the
  trimmed line starts with \<open># result\<close> followed by a blank.
\<close>

theorem comment_with_pattern_flags_itself:
  assumes "fs (filename a) = Readable content"
    and "i < length (readlines content)"
    and "startswith (strip (readlines content ! i)) ''#''"
    and "changed_line (readlines content ! i)"
  shows "\<exists>out w. identify_outdated_comments fs a = Inr out
           \<and> find (\<lambda>w. 2 < length w) (findall_words (readlines content ! i)) = Some w
           \<and> (int i + 1, ''outdated'',
               ''Possible outdated comment near changed line. Comment might be related to variable: ''
               @ w) \<in> set out
           \<and> (startswith (strip (readlines content ! i)) ''# result '' \<longrightarrow> w = ''result'')"
proof -
  let ?lines = "readlines content"
  from own_line_token [OF assms(4)] obtain w
    where w: "find (\<lambda>w. 2 < length w) (findall_words (?lines ! i)) = Some w"
      and f: "first_token (?lines ! i) (strip (?lines ! i)) = Some w"
    by blast
  from assms(2) have win: "int i \<in> set (window (length ?lines) (int i))"
    by (auto simp: window_def)
  from assms(3) f
  have "pair_issues ?lines i (int i)
          = [(int i + 1, ''outdated'',
              ''Possible outdated comment near changed line. Comment might be related to variable: ''
              @ w)]"
    by (simp add: pair_issues_def)
  then have "(int i + 1, ''outdated'',
              ''Possible outdated comment near changed line. Comment might be related to variable: ''
              @ w) \<in> set (pair_issues ?lines i (int i))"
    by simp
  from pair_in_result [OF assms(2) assms(4) win this]
  have m: "(int i + 1, ''outdated'',
              ''Possible outdated comment near changed line. Comment might be related to variable: ''
              @ w) \<in> set (spec_outdated ?lines)" .
  have r: "startswith (strip (?lines ! i)) ''# result '' \<longrightarrow> w = ''result''"
    using first_word_result [of "?lines ! i"] w by auto
  from assms(1) have "identify_outdated_comments fs a = Inr (spec_outdated ?lines)"
    by (rule identify_spec)
  with w m r show ?thesis by blast
qed

theorem comment_with_pattern_flags_itself_witness:
  "(\<exists>out. identify_outdated_comments (\<lambda>p. Readable ''    # my result = val + 5 \<newline>'')
       \<lparr>filename = ''f.py'', style_guide = [], source_code = [],
      tree = Other ''Module'' []\<rparr> = Inr out
      \<and> (1, ''outdated'',
          ''Possible outdated comment near changed line. Comment might be related to variable: result'') \<in> set out)
   \<and> identify_outdated_comments (\<lambda>p. Readable ''# result = val + 5'')
       \<lparr>filename = ''f.py'', style_guide = [], source_code = [],
      tree = Other ''Module'' []\<rparr>
     = Inr [(1, ''outdated'',
             ''Possible outdated comment near changed line. Comment might be related to variable: result'')]
   \<and> (\<exists>out w. identify_outdated_comments (\<lambda>p. Readable ''# result = val + 5'')
       \<lparr>filename = ''f.py'', style_guide = [], source_code = [],
      tree = Other ''Module'' []\<rparr> = Inr out
      \<and> (1, ''outdated'',
          ''Possible outdated comment near changed line. Comment might be related to variable: '' @ w)
         \<in> set out \<and> w = ''result'')"
proof -
  let ?A = "\<lparr>filename = ''f.py'', style_guide = [], source_code = [],
      tree = Other ''Module'' []\<rparr>"
  let ?c = "''    # my result = val + 5 \<newline>''"
  let ?d = "''# result = val + 5''"
  have lc: "readlines ?c = [?c]" and ld: "readlines ?d = [?d]"
    by simp_all
  have hc: "startswith (strip (readlines ?c ! 0)) ''#''"
    and hd: "startswith (strip (readlines ?d ! 0)) ''#''"
    and pd: "startswith (strip (readlines ?d ! 0)) ''# result ''"
    by (simp_all add: lc ld text_eval)
  have cc: "changed_line (readlines ?c ! 0)" and cd: "changed_line (readlines ?d ! 0)"
    by (simp_all add: lc ld changed_line_def sublist_code)
  have wc: "find (\<lambda>w. 2 < length w) (findall_words (readlines ?c ! 0)) = Some ''result''"
    by (simp add: lc is_word_char_def)
  have n: "0 < length (readlines ?c)" "0 < length (readlines ?d)"
    by (simp_all add: lc ld)
  have fc: "(\<lambda>p. Readable ?c) (filename ?A) = Readable ?c"
    and fd: "(\<lambda>p. Readable ?d) (filename ?A) = Readable ?d"
    by simp_all
  have a: "\<exists>out. identify_outdated_comments (\<lambda>p. Readable ?c) ?A = Inr out
      \<and> (1, ''outdated'',
          ''Possible outdated comment near changed line. Comment might be related to variable: result'') \<in> set out"
  proof -
    from comment_with_pattern_flags_itself
            [where fs = "\<lambda>p. Readable ?c" and a = ?A and content = ?c and i = 0,
             OF fc n(1) hc cc]
    obtain out w where o: "identify_outdated_comments (\<lambda>p. Readable ?c) ?A = Inr out"
      and fw: "find (\<lambda>w. 2 < length w) (findall_words (readlines ?c ! 0)) = Some w"
      and m: "(int 0 + 1, ''outdated'', ''Possible outdated comment near changed line. Comment might be related to variable: '' @ w) \<in> set out"
      by blast
    from fw wc have "w = ''result''" by simp
    with o m show ?thesis by auto
  qed
  have b: "identify_outdated_comments (\<lambda>p. Readable ?d) ?A
     = Inr [(1, ''outdated'',
             ''Possible outdated comment near changed line. Comment might be related to variable: result'')]"
    by (simp add: outdated_eval text_eval Let_def del: scan_lines.simps(2))
  have c: "\<exists>out w. identify_outdated_comments (\<lambda>p. Readable ?d) ?A = Inr out
      \<and> (1, ''outdated'',
          ''Possible outdated comment near changed line. Comment might be related to variable: '' @ w)
         \<in> set out \<and> w = ''result''"
  proof -
    from comment_with_pattern_flags_itself
            [where fs = "\<lambda>p. Readable ?d" and a = ?A and content = ?d and i = 0,
             OF fd n(2) hd cd]
    obtain out w where o: "identify_outdated_comments (\<lambda>p. Readable ?d) ?A = Inr out"
      and m: "(int 0 + 1, ''outdated'', ''Possible outdated comment near changed line. Comment might be related to variable: '' @ w) \<in> set out"
      and r: "startswith (strip (readlines ?d ! 0)) ''# result '' \<longrightarrow> w = ''result''"
      by blast
    from r pd have "w = ''result''" by blast
    with o m show ?thesis by auto
  qed
  from a b c show ?thesis by (intro conjI)
qed

end
